theory Spec2Isabelle
  imports Complex_Main
begin

section \<open>Reference batch normalization: the model\<close>

text \<open>
  The source is \<^verbatim>\<open>src/cpu/ref_batch_normalization.cpp\<close>: the two kernels
  \<^verbatim>\<open>ref_batch_normalization_fwd_t::execute_forward\<close> and
  \<^verbatim>\<open>ref_batch_normalization_bwd_t::execute_backward\<close>.

  Conventions of the embedding.
  \<^item> The arithmetic of the kernels is a parameter. \<^verbatim>\<open>data_t\<close> (binary32 in the one
    instantiation) is a type \<open>'a\<close>, \<^verbatim>\<open>double\<close> is a type \<open>'d\<close>, and every
    operation the source applies to them is a field of the record \<open>arith\<close>. Nothing is
    assumed of the operations: not that they are exact, associative or commutative, nor
    that their results are finite. A theorem stated for every \<open>A\<close> therefore holds for
    the rounded operations of the machine, infinities and NaN included. The instance
    \<open>ieee\<close> below is IEEE 754 binary32 and binary64; the concrete runs are computed
    in it.
  \<^item> A buffer is a function from physical offsets to values. The buffers of one call
    (src, scaleshift, dst, ws, diff_dst, diff_src, diff_scaleshift) are distinct memory
    objects, so each is a function of its own. A nullable pointer is an option.
  \<^item> A memory descriptor is known to the kernel only through \<^verbatim>\<open>off(...)\<close>; it is
    a parameter of the model, a function from logical indices to a physical offset.
  \<^item> The sizes \<^verbatim>\<open>MB(), C(), H(), W()\<close> are natural numbers. The products
    \<^verbatim>\<open>W * N * H\<close> and \<^verbatim>\<open>W * H * N\<close> are products of \<^verbatim>\<open>int\<close>: each
    multiplication wraps around at 32 bits (two's complement, what the usual compilers
    produce where C++ leaves the overflow undefined).
  \<^item> The \<^verbatim>\<open>omp parallel for\<close> over the channels is a fold of the loop body over a
    list of channels; the source order is \<open>[0..<C]\<close>.
\<close>

record ('a, 'd) arith =
  f_zero :: 'a                          \<comment> \<open>\<^verbatim>\<open>0\<close>, \<^verbatim>\<open>data_t(0)\<close> and \<^verbatim>\<open>0.0\<close> stored in a \<^verbatim>\<open>data_t\<close>\<close>
  f_add :: "'a \<Rightarrow> 'a \<Rightarrow> 'a"                \<comment> \<open>\<^verbatim>\<open>+\<close> on \<^verbatim>\<open>data_t\<close>\<close>
  f_sub :: "'a \<Rightarrow> 'a \<Rightarrow> 'a"                \<comment> \<open>\<^verbatim>\<open>-\<close> on \<^verbatim>\<open>data_t\<close>\<close>
  f_mul :: "'a \<Rightarrow> 'a \<Rightarrow> 'a"                \<comment> \<open>\<^verbatim>\<open>*\<close> on \<^verbatim>\<open>data_t\<close>\<close>
  f_div :: "'a \<Rightarrow> 'a \<Rightarrow> 'a"                \<comment> \<open>\<^verbatim>\<open>/\<close> on \<^verbatim>\<open>data_t\<close>\<close>
  f_of_int :: "int \<Rightarrow> 'a"                 \<comment> \<open>the conversion of an \<^verbatim>\<open>int\<close> operand to \<^verbatim>\<open>data_t\<close>\<close>
  f_to_d :: "'a \<Rightarrow> 'd"                    \<comment> \<open>the conversion of a \<^verbatim>\<open>data_t\<close> operand to \<^verbatim>\<open>double\<close>\<close>
  d_one :: 'd                           \<comment> \<open>the literal \<^verbatim>\<open>1.\<close>\<close>
  d_add :: "'d \<Rightarrow> 'd \<Rightarrow> 'd"                \<comment> \<open>\<^verbatim>\<open>+\<close> on \<^verbatim>\<open>double\<close>\<close>
  d_sqrt :: "'d \<Rightarrow> 'd"                    \<comment> \<open>\<^verbatim>\<open>sqrt\<close> of \<^verbatim>\<open>math.h\<close>\<close>
  d_div :: "'d \<Rightarrow> 'd \<Rightarrow> 'd"                \<comment> \<open>\<^verbatim>\<open>/\<close> on \<^verbatim>\<open>double\<close>\<close>
  d_to_f :: "'d \<Rightarrow> 'a"                    \<comment> \<open>storing a \<^verbatim>\<open>double\<close> into a \<^verbatim>\<open>data_t\<close>\<close>

type_synonym 'a buf = "nat \<Rightarrow> 'a"
type_synonym desc4 = "nat \<Rightarrow> nat \<Rightarrow> nat \<Rightarrow> nat \<Rightarrow> nat"
type_synonym desc2 = "nat \<Rightarrow> nat \<Rightarrow> nat"
type_synonym desc1 = "nat \<Rightarrow> nat"

text \<open>The product of three \<^verbatim>\<open>int\<close> sizes, as \<^verbatim>\<open>a * b * c\<close> computes it.\<close>

definition wrap32 :: "int \<Rightarrow> int" where
  "wrap32 x = (x + 2 ^ 31) mod 2 ^ 32 - 2 ^ 31"

definition int_prod3 :: "nat \<Rightarrow> nat \<Rightarrow> nat \<Rightarrow> int" where
  "int_prod3 a b c = wrap32 (wrap32 (int a * int b) * int c)"

text \<open>
  The loop nest that both kernels run five times:
  \<^verbatim>\<open>for (n < N) for (h < H) for (w < W) body\<close>.
\<close>

definition for_nhw :: "nat \<Rightarrow> nat \<Rightarrow> nat \<Rightarrow> (nat \<Rightarrow> nat \<Rightarrow> nat \<Rightarrow> 's \<Rightarrow> 's) \<Rightarrow> 's \<Rightarrow> 's" where
  "for_nhw N H W body =
     fold (\<lambda>n. fold (\<lambda>h. fold (\<lambda>w. body n h w) [0..<W]) [0..<H]) [0..<N]"

subsection \<open>The forward kernel\<close>

text \<open>
  The memory the forward kernel writes: the output buffer, the workspace (absent when the
  pointer is null) and the two locals \<^verbatim>\<open>v_mean, v_variance\<close> of the loop body.
\<close>

record 'a fwd_state =
  dst :: "'a buf"
  ws :: "'a buf option"
  v_mean :: 'a
  v_variance :: 'a

text \<open>
  \<^verbatim>\<open>data_t &mean = is_training ? ws_mean[c] : v_mean\<close> with
  \<^verbatim>\<open>ws_mean = &ws[0]\<close>, and
  \<^verbatim>\<open>data_t &variance = is_training ? ws_variance[c] : v_variance\<close> with
  \<^verbatim>\<open>ws_variance = &ws[C]\<close>: reading and writing through the two references.
\<close>

definition get_mean :: "nat \<Rightarrow> 'a fwd_state \<Rightarrow> 'a" where
  "get_mean c s = (case ws s of Some b \<Rightarrow> b (0 + c) | None \<Rightarrow> v_mean s)"

definition set_mean :: "nat \<Rightarrow> 'a \<Rightarrow> 'a fwd_state \<Rightarrow> 'a fwd_state" where
  "set_mean c x s =
     (case ws s of Some b \<Rightarrow> s\<lparr>ws := Some (b(0 + c := x))\<rparr> | None \<Rightarrow> s\<lparr>v_mean := x\<rparr>)"

definition get_variance :: "nat \<Rightarrow> nat \<Rightarrow> 'a fwd_state \<Rightarrow> 'a" where
  "get_variance C c s = (case ws s of Some b \<Rightarrow> b (C + c) | None \<Rightarrow> v_variance s)"

definition set_variance :: "nat \<Rightarrow> nat \<Rightarrow> 'a \<Rightarrow> 'a fwd_state \<Rightarrow> 'a fwd_state" where
  "set_variance C c x s =
     (case ws s of Some b \<Rightarrow> s\<lparr>ws := Some (b(C + c := x))\<rparr> | None \<Rightarrow> s\<lparr>v_variance := x\<rparr>)"

text \<open>\<^verbatim>\<open>mean = variance = 0;\<close>\<close>

definition fwd_init :: "('a, 'd) arith \<Rightarrow> nat \<Rightarrow> nat \<Rightarrow> 'a fwd_state \<Rightarrow> 'a fwd_state" where
  "fwd_init A C c s =
     (let s1 = set_variance C c (f_zero A) s in set_mean c (get_variance C c s1) s1)"

text \<open>The first pass and \<^verbatim>\<open>mean /= W * N * H\<close>.\<close>

definition fwd_mean ::
  "('a, 'd) arith \<Rightarrow> nat \<Rightarrow> nat \<Rightarrow> nat \<Rightarrow> desc4 \<Rightarrow> 'a buf \<Rightarrow> nat \<Rightarrow> 'a fwd_state \<Rightarrow> 'a fwd_state" where
  "fwd_mean A N H W data_d src c s =
     (let s1 = for_nhw N H W
                 (\<lambda>n h w t. set_mean c (f_add A (get_mean c t) (src (data_d n c h w))) t) s
      in set_mean c (f_div A (get_mean c s1) (f_of_int A (int_prod3 W N H))) s1)"

text \<open>The second pass: the sum of the squared deviations, left in \<^verbatim>\<open>variance\<close>.\<close>

definition fwd_sqsum ::
  "('a, 'd) arith \<Rightarrow> nat \<Rightarrow> nat \<Rightarrow> nat \<Rightarrow> nat \<Rightarrow> desc4 \<Rightarrow> 'a buf \<Rightarrow> nat \<Rightarrow> 'a fwd_state
     \<Rightarrow> 'a fwd_state" where
  "fwd_sqsum A N C H W data_d src c s =
     for_nhw N H W
       (\<lambda>n h w t. let m = f_sub A (src (data_d n c h w)) (get_mean c t)
                  in set_variance C c (f_add A (get_variance C c t) (f_mul A m m)) t) s"

text \<open>
  \<^verbatim>\<open>variance = 1. / sqrt(variance/(W * H * N) + eps);\<close> The quotient is a
  \<^verbatim>\<open>data_t\<close>; it is converted to \<^verbatim>\<open>double\<close> for the sum with \<^verbatim>\<open>eps\<close>, the
  root and the reciprocal, and the result is stored into the \<^verbatim>\<open>data_t\<close>.
\<close>

definition fwd_invstd ::
  "('a, 'd) arith \<Rightarrow> nat \<Rightarrow> nat \<Rightarrow> nat \<Rightarrow> nat \<Rightarrow> 'd \<Rightarrow> nat \<Rightarrow> 'a fwd_state \<Rightarrow> 'a fwd_state" where
  "fwd_invstd A N C H W eps c s =
     set_variance C c
       (d_to_f A (d_div A (d_one A) (d_sqrt A
          (d_add A (f_to_d A (f_div A (get_variance C c s) (f_of_int A (int_prod3 W H N))))
                   eps)))) s"

text \<open>The third pass writes \<^verbatim>\<open>dst\<close>.\<close>

definition fwd_normalize ::
  "('a, 'd) arith \<Rightarrow> nat \<Rightarrow> nat \<Rightarrow> nat \<Rightarrow> nat \<Rightarrow> desc4 \<Rightarrow> desc2 \<Rightarrow> 'a buf \<Rightarrow> 'a buf \<Rightarrow> nat
     \<Rightarrow> 'a fwd_state \<Rightarrow> 'a fwd_state" where
  "fwd_normalize A N C H W data_d scaleshift_d src scaleshift c s =
     for_nhw N H W
       (\<lambda>n h w t.
          let d_off = data_d n c h w;
              sm_off = scaleshift_d 0 c;
              sv_off = scaleshift_d 1 c
          in t\<lparr>dst := (dst t)(d_off :=
                 f_add A
                   (f_mul A (f_mul A (scaleshift sm_off) (f_sub A (src d_off) (get_mean c t)))
                            (get_variance C c t))
                   (scaleshift sv_off))\<rparr>) s"

text \<open>One iteration of the loop over the channels.\<close>

definition fwd_channel ::
  "('a, 'd) arith \<Rightarrow> nat \<Rightarrow> nat \<Rightarrow> nat \<Rightarrow> nat \<Rightarrow> 'd \<Rightarrow> desc4 \<Rightarrow> desc2 \<Rightarrow> 'a buf \<Rightarrow> 'a buf \<Rightarrow> nat
     \<Rightarrow> 'a fwd_state \<Rightarrow> 'a fwd_state" where
  "fwd_channel A N C H W eps data_d scaleshift_d src scaleshift c s =
     fwd_normalize A N C H W data_d scaleshift_d src scaleshift c
       (fwd_invstd A N C H W eps c
         (fwd_sqsum A N C H W data_d src c
           (fwd_mean A N H W data_d src c
             (fwd_init A C c s))))"

text \<open>
  The kernel run with the channels taken in the order \<open>cs\<close>, from the buffers
  \<open>dst0\<close> and \<open>ws0\<close> as the caller passes them; the result is the pair of the
  buffers afterwards. The locals are not initialised by the source; every iteration
  assigns them before it reads them.
\<close>

definition fwd_run ::
  "nat list \<Rightarrow> ('a, 'd) arith \<Rightarrow> nat \<Rightarrow> nat \<Rightarrow> nat \<Rightarrow> nat \<Rightarrow> 'd \<Rightarrow> desc4 \<Rightarrow> desc2 \<Rightarrow> 'a buf \<Rightarrow> 'a buf
     \<Rightarrow> 'a buf \<Rightarrow> 'a buf option \<Rightarrow> 'a buf \<times> 'a buf option" where
  "fwd_run cs A N C H W eps data_d scaleshift_d src scaleshift dst0 ws0 =
     (let s = fold (fwd_channel A N C H W eps data_d scaleshift_d src scaleshift) cs
                \<lparr>dst = dst0, ws = ws0, v_mean = f_zero A, v_variance = f_zero A\<rparr>
      in (dst s, ws s))"

definition execute_forward ::
  "('a, 'd) arith \<Rightarrow> nat \<Rightarrow> nat \<Rightarrow> nat \<Rightarrow> nat \<Rightarrow> 'd \<Rightarrow> desc4 \<Rightarrow> desc2 \<Rightarrow> 'a buf \<Rightarrow> 'a buf
     \<Rightarrow> 'a buf \<Rightarrow> 'a buf option \<Rightarrow> 'a buf \<times> 'a buf option" where
  "execute_forward A N C H W eps data_d scaleshift_d src scaleshift dst0 ws0 =
     fwd_run [0..<C] A N C H W eps data_d scaleshift_d src scaleshift dst0 ws0"

subsection \<open>The backward kernel\<close>

record 'a bwd_state =
  diff_src :: "'a buf"
  diff_scaleshift :: "'a buf option"

text \<open>
  The accumulation pass over the two locals \<^verbatim>\<open>diff_gamma, diff_beta\<close>, both
  started at 0.
\<close>

definition bwd_sums ::
  "('a, 'd) arith \<Rightarrow> nat \<Rightarrow> nat \<Rightarrow> nat \<Rightarrow> desc4 \<Rightarrow> desc4 \<Rightarrow> 'a buf \<Rightarrow> 'a buf \<Rightarrow> 'a \<Rightarrow> nat
     \<Rightarrow> 'a \<times> 'a" where
  "bwd_sums A N H W data_d diff_data_d src diff_dst mean c =
     for_nhw N H W
       (\<lambda>n h w (diff_gamma, diff_beta).
          (f_add A diff_gamma
             (f_mul A (f_sub A (src (data_d n c h w)) mean) (diff_dst (diff_data_d n c h w))),
           f_add A diff_beta (diff_dst (diff_data_d n c h w))))
       (f_zero A, f_zero A)"

text \<open>
  \<^verbatim>\<open>if (diff_scaleshift) { diff_scaleshift[off(0, c)] = diff_gamma;
  diff_scaleshift[off(1, c)] = diff_beta; }\<close>
\<close>

definition bwd_store :: "desc2 \<Rightarrow> nat \<Rightarrow> 'a \<Rightarrow> 'a \<Rightarrow> 'a bwd_state \<Rightarrow> 'a bwd_state" where
  "bwd_store diff_scaleshift_d c diff_gamma diff_beta s =
     (case diff_scaleshift s of
        None \<Rightarrow> s
      | Some b \<Rightarrow>
          s\<lparr>diff_scaleshift :=
              Some ((b(diff_scaleshift_d 0 c := diff_gamma))(diff_scaleshift_d 1 c := diff_beta))\<rparr>)"

text \<open>
  The last pass: the assignment to \<^verbatim>\<open>diff_src[off]\<close> and then
  \<^verbatim>\<open>diff_src[off] *= gamma*variance\<close>.
\<close>

definition bwd_diff_src ::
  "('a, 'd) arith \<Rightarrow> nat \<Rightarrow> nat \<Rightarrow> nat \<Rightarrow> desc4 \<Rightarrow> desc4 \<Rightarrow> 'a buf \<Rightarrow> 'a buf \<Rightarrow> 'a \<Rightarrow> 'a \<Rightarrow> 'a \<Rightarrow> 'a
     \<Rightarrow> 'a \<Rightarrow> nat \<Rightarrow> 'a bwd_state \<Rightarrow> 'a bwd_state" where
  "bwd_diff_src A N H W data_d diff_data_d src diff_dst mean variance gamma diff_gamma diff_beta
       c s =
     for_nhw N H W
       (\<lambda>n h w t.
          let d1 = (diff_src t)(diff_data_d n c h w :=
                      f_sub A
                        (f_sub A (diff_dst (diff_data_d n c h w))
                                 (f_div A diff_beta (f_of_int A (int_prod3 W H N))))
                        (f_div A
                           (f_mul A (f_mul A (f_sub A (src (data_d n c h w)) mean) diff_gamma)
                                    variance)
                           (f_of_int A (int_prod3 W H N))));
              d2 = d1(diff_data_d n c h w :=
                      f_mul A (d1 (diff_data_d n c h w)) (f_mul A gamma variance))
          in t\<lparr>diff_src := d2\<rparr>) s"

text \<open>
  One iteration of the loop over the channels. The workspace is read at
  \<^verbatim>\<open>ws_mean[c]\<close> and \<^verbatim>\<open>ws_variance[c]\<close>, where
  \<^verbatim>\<open>ws_mean = &ws[workspace_d.off(0)]\<close> and
  \<^verbatim>\<open>ws_variance = &ws[workspace_d.off(C)]\<close>.
\<close>

definition bwd_channel ::
  "('a, 'd) arith \<Rightarrow> nat \<Rightarrow> nat \<Rightarrow> nat \<Rightarrow> nat \<Rightarrow> desc4 \<Rightarrow> desc4 \<Rightarrow> desc2 \<Rightarrow> desc2 \<Rightarrow> desc1
     \<Rightarrow> 'a buf \<Rightarrow> 'a buf \<Rightarrow> 'a buf \<Rightarrow> 'a buf \<Rightarrow> nat \<Rightarrow> 'a bwd_state \<Rightarrow> 'a bwd_state" where
  "bwd_channel A N C H W data_d diff_data_d scaleshift_d diff_scaleshift_d workspace_d
       src diff_dst scaleshift wsp c s =
     (let mean = wsp (workspace_d 0 + c);
          variance = wsp (workspace_d C + c);
          gamma = scaleshift (scaleshift_d 0 c);
          (diff_gamma, diff_beta) = bwd_sums A N H W data_d diff_data_d src diff_dst mean c;
          diff_gamma = f_mul A diff_gamma variance;
          s1 = bwd_store diff_scaleshift_d c diff_gamma diff_beta s
      in bwd_diff_src A N H W data_d diff_data_d src diff_dst mean variance gamma
           diff_gamma diff_beta c s1)"

definition bwd_run ::
  "nat list \<Rightarrow> ('a, 'd) arith \<Rightarrow> nat \<Rightarrow> nat \<Rightarrow> nat \<Rightarrow> nat \<Rightarrow> desc4 \<Rightarrow> desc4 \<Rightarrow> desc2 \<Rightarrow> desc2 \<Rightarrow> desc1
     \<Rightarrow> 'a buf \<Rightarrow> 'a buf \<Rightarrow> 'a buf \<Rightarrow> 'a buf \<Rightarrow> 'a buf \<Rightarrow> 'a buf option
     \<Rightarrow> 'a buf \<times> 'a buf option" where
  "bwd_run cs A N C H W data_d diff_data_d scaleshift_d diff_scaleshift_d workspace_d
       src diff_dst scaleshift wsp diff_src0 diff_scaleshift0 =
     (let s = fold (bwd_channel A N C H W data_d diff_data_d scaleshift_d diff_scaleshift_d
                      workspace_d src diff_dst scaleshift wsp) cs
                \<lparr>diff_src = diff_src0, diff_scaleshift = diff_scaleshift0\<rparr>
      in (diff_src s, diff_scaleshift s))"

definition execute_backward ::
  "('a, 'd) arith \<Rightarrow> nat \<Rightarrow> nat \<Rightarrow> nat \<Rightarrow> nat \<Rightarrow> desc4 \<Rightarrow> desc4 \<Rightarrow> desc2 \<Rightarrow> desc2 \<Rightarrow> desc1
     \<Rightarrow> 'a buf \<Rightarrow> 'a buf \<Rightarrow> 'a buf \<Rightarrow> 'a buf \<Rightarrow> 'a buf \<Rightarrow> 'a buf option
     \<Rightarrow> 'a buf \<times> 'a buf option" where
  "execute_backward A N C H W data_d diff_data_d scaleshift_d diff_scaleshift_d workspace_d
       src diff_dst scaleshift wsp diff_src0 diff_scaleshift0 =
     bwd_run [0..<C] A N C H W data_d diff_data_d scaleshift_d diff_scaleshift_d workspace_d
       src diff_dst scaleshift wsp diff_src0 diff_scaleshift0"

subsection \<open>The quantities of the specification, in the arithmetic of the code\<close>

text \<open>
  The per-channel statistics and gradients as the specification words them, with every
  operation read in the arithmetic \<open>A\<close> and in the order the source applies it: a sum
  over \<open>(n, h, w)\<close> is \<open>sum_seq\<close>, the terms added one by one to 0 from the left,
  over \<open>nhw_list\<close>, the index triples in the order of the loop nest, and the division
  by \<open>N * H * W\<close> is the division by the converted \<^verbatim>\<open>int\<close> product. These
  definitions are pure functions of the inputs; the theorems below compare the kernels,
  which compute through the references and the buffers, with them.
\<close>

definition nhw_list :: "nat \<Rightarrow> nat \<Rightarrow> nat \<Rightarrow> (nat \<times> nat \<times> nat) list" where
  "nhw_list N H W =
     concat (map (\<lambda>n. concat (map (\<lambda>h. map (\<lambda>w. (n, h, w)) [0..<W]) [0..<H])) [0..<N])"

definition sum_seq :: "('a, 'd) arith \<Rightarrow> 'a list \<Rightarrow> 'a" where
  "sum_seq A xs = foldl (f_add A) (f_zero A) xs"

definition mean_of :: "('a, 'd) arith \<Rightarrow> nat \<Rightarrow> nat \<Rightarrow> nat \<Rightarrow> desc4 \<Rightarrow> 'a buf \<Rightarrow> nat \<Rightarrow> 'a" where
  "mean_of A N H W data_d src c =
     f_div A (sum_seq A (map (\<lambda>(n, h, w). src (data_d n c h w)) (nhw_list N H W)))
             (f_of_int A (int_prod3 W N H))"

definition sqsum_of :: "('a, 'd) arith \<Rightarrow> nat \<Rightarrow> nat \<Rightarrow> nat \<Rightarrow> desc4 \<Rightarrow> 'a buf \<Rightarrow> nat \<Rightarrow> 'a" where
  "sqsum_of A N H W data_d src c =
     sum_seq A (map (\<lambda>(n, h, w).
                  f_mul A (f_sub A (src (data_d n c h w)) (mean_of A N H W data_d src c))
                          (f_sub A (src (data_d n c h w)) (mean_of A N H W data_d src c)))
                (nhw_list N H W))"

definition variance_of :: "('a, 'd) arith \<Rightarrow> nat \<Rightarrow> nat \<Rightarrow> nat \<Rightarrow> desc4 \<Rightarrow> 'a buf \<Rightarrow> nat \<Rightarrow> 'a" where
  "variance_of A N H W data_d src c =
     f_div A (sqsum_of A N H W data_d src c) (f_of_int A (int_prod3 W H N))"

definition invstd_of ::
  "('a, 'd) arith \<Rightarrow> nat \<Rightarrow> nat \<Rightarrow> nat \<Rightarrow> 'd \<Rightarrow> desc4 \<Rightarrow> 'a buf \<Rightarrow> nat \<Rightarrow> 'a" where
  "invstd_of A N H W eps data_d src c =
     d_to_f A (d_div A (d_one A)
       (d_sqrt A (d_add A (f_to_d A (variance_of A N H W data_d src c)) eps)))"

definition dst_of :: "('a, 'd) arith \<Rightarrow> desc2 \<Rightarrow> 'a buf \<Rightarrow> nat \<Rightarrow> 'a \<Rightarrow> 'a \<Rightarrow> 'a \<Rightarrow> 'a" where
  "dst_of A scaleshift_d scaleshift c mean invstd x =
     f_add A (f_mul A (f_mul A (scaleshift (scaleshift_d 0 c)) (f_sub A x mean)) invstd)
             (scaleshift (scaleshift_d 1 c))"

definition diff_beta_of ::
  "('a, 'd) arith \<Rightarrow> nat \<Rightarrow> nat \<Rightarrow> nat \<Rightarrow> desc4 \<Rightarrow> 'a buf \<Rightarrow> nat \<Rightarrow> 'a" where
  "diff_beta_of A N H W diff_data_d diff_dst c =
     sum_seq A (map (\<lambda>(n, h, w). diff_dst (diff_data_d n c h w)) (nhw_list N H W))"

definition diff_gamma_of ::
  "('a, 'd) arith \<Rightarrow> nat \<Rightarrow> nat \<Rightarrow> nat \<Rightarrow> desc4 \<Rightarrow> desc4 \<Rightarrow> 'a buf \<Rightarrow> 'a buf \<Rightarrow> 'a \<Rightarrow> 'a \<Rightarrow> nat
     \<Rightarrow> 'a" where
  "diff_gamma_of A N H W data_d diff_data_d src diff_dst mean invstd c =
     f_mul A
       (sum_seq A (map (\<lambda>(n, h, w). f_mul A (f_sub A (src (data_d n c h w)) mean)
                                            (diff_dst (diff_data_d n c h w)))
                       (nhw_list N H W)))
       invstd"

definition diff_src_of ::
  "('a, 'd) arith \<Rightarrow> nat \<Rightarrow> nat \<Rightarrow> nat \<Rightarrow> desc4 \<Rightarrow> desc4 \<Rightarrow> 'a buf \<Rightarrow> 'a buf \<Rightarrow> 'a \<Rightarrow> 'a \<Rightarrow> 'a
     \<Rightarrow> nat \<Rightarrow> nat \<Rightarrow> nat \<Rightarrow> nat \<Rightarrow> 'a" where
  "diff_src_of A N H W data_d diff_data_d src diff_dst gamma mean invstd c n h w =
     f_mul A
       (f_sub A
          (f_sub A (diff_dst (diff_data_d n c h w))
                   (f_div A (diff_beta_of A N H W diff_data_d diff_dst c)
                            (f_of_int A (int_prod3 W H N))))
          (f_div A
             (f_mul A
                (f_mul A (f_sub A (src (data_d n c h w)) mean)
                         (diff_gamma_of A N H W data_d diff_data_d src diff_dst mean invstd c))
                invstd)
             (f_of_int A (int_prod3 W H N))))
       (f_mul A gamma invstd)"

subsection \<open>Descriptors: footprints and well-formedness\<close>

text \<open>The offsets of channel \<open>c\<close> under a four-dimensional descriptor.\<close>

definition foot :: "nat \<Rightarrow> nat \<Rightarrow> nat \<Rightarrow> desc4 \<Rightarrow> nat \<Rightarrow> nat set" where
  "foot N H W d c = (\<Union>n\<in>{..<N}. \<Union>h\<in>{..<H}. (\<lambda>w. d n c h w) ` {..<W})"

text \<open>
  A descriptor is channel-injective when two different channels share no offset, and
  injective when two different logical indices do not. The quantifiers range over the
  finite index ranges of the call.
\<close>

definition chan_disjoint :: "nat \<Rightarrow> nat \<Rightarrow> nat \<Rightarrow> nat \<Rightarrow> desc4 \<Rightarrow> bool" where
  "chan_disjoint N C H W d \<longleftrightarrow>
     (\<forall>c\<in>{..<C}. \<forall>c'\<in>{..<C}. c \<noteq> c' \<longrightarrow> foot N H W d c \<inter> foot N H W d c' = {})"

definition inj_desc4 :: "nat \<Rightarrow> nat \<Rightarrow> nat \<Rightarrow> nat \<Rightarrow> desc4 \<Rightarrow> bool" where
  "inj_desc4 N C H W d \<longleftrightarrow>
     (\<forall>n\<in>{..<N}. \<forall>c\<in>{..<C}. \<forall>h\<in>{..<H}. \<forall>w\<in>{..<W}.
      \<forall>n'\<in>{..<N}. \<forall>c'\<in>{..<C}. \<forall>h'\<in>{..<H}. \<forall>w'\<in>{..<W}.
        d n c h w = d n' c' h' w' \<longrightarrow> n = n' \<and> c = c' \<and> h = h' \<and> w = w')"

definition chan_disjoint2 :: "nat \<Rightarrow> desc2 \<Rightarrow> bool" where
  "chan_disjoint2 C d \<longleftrightarrow>
     (\<forall>c\<in>{..<C}. \<forall>c'\<in>{..<C}. c \<noteq> c' \<longrightarrow>
        (\<forall>r\<in>{..<2}. \<forall>r'\<in>{..<2}. d r c \<noteq> d r' c'))"

definition inj_desc2 :: "nat \<Rightarrow> desc2 \<Rightarrow> bool" where
  "inj_desc2 C d \<longleftrightarrow>
     (\<forall>r\<in>{..<2}. \<forall>c\<in>{..<C}. \<forall>r'\<in>{..<2}. \<forall>c'\<in>{..<C}.
        d r c = d r' c' \<longrightarrow> r = r' \<and> c = c')"

text \<open>
  The offsets a descriptor gives to the logical indices of a call: of a four-dimensional
  buffer, of a two-row buffer, and the cells \<^verbatim>\<open>ws_mean[c]\<close> and
  \<^verbatim>\<open>ws_variance[c]\<close> that the backward kernel addresses in the workspace.
\<close>

definition image4 :: "nat \<Rightarrow> nat \<Rightarrow> nat \<Rightarrow> nat \<Rightarrow> desc4 \<Rightarrow> nat set" where
  "image4 N C H W d = (\<Union>c<C. foot N H W d c)"

definition image2 :: "nat \<Rightarrow> desc2 \<Rightarrow> nat set" where
  "image2 C d = (\<Union>r\<in>{..<2}. (\<lambda>c. d r c) ` {..<C})"

definition ws_cells :: "nat \<Rightarrow> desc1 \<Rightarrow> nat set" where
  "ws_cells C workspace_d =
     (\<lambda>c. workspace_d 0 + c) ` {..<C} \<union> (\<lambda>c. workspace_d C + c) ` {..<C}"

text \<open>
  Two dense row-major descriptors, for the concrete inputs the theorems are run on:
  the (N, C, H, W) layout and the (2, C) layout.
\<close>

definition nchw :: "nat \<Rightarrow> nat \<Rightarrow> nat \<Rightarrow> desc4" where
  "nchw C H W n c h w = ((n * C + c) * H + h) * W + w"

definition nc :: "nat \<Rightarrow> desc2" where
  "nc C r c = r * C + c"

subsection \<open>IEEE 754 binary32 and binary64\<close>

text \<open>
  The arithmetic of the one instantiation of the kernels (\<^verbatim>\<open>data_type::f32\<close>), for
  the concrete runs: \<^verbatim>\<open>float\<close> is binary32, \<^verbatim>\<open>double\<close> is binary64, every
  operation rounds its exact result to nearest, ties to even, with no excess precision
  and no fused multiply-add.

  A value is a zero with its sign bit (\<open>Zero True\<close> is \<open>-0\<close>), a finite number other
  than zero, an infinity with its sign bit, or a NaN; the NaNs are not told apart. The two
  formats share this type: every binary32 value is a binary64 value, so the conversion
  from \<^verbatim>\<open>float\<close> to \<^verbatim>\<open>double\<close> is the identity.

  \<open>round_to p emin emax x\<close> rounds the real \<open>x\<close> to precision \<open>p\<close> (24 bits for
  binary32, 53 for binary64): the unit in the last place of \<open>x\<close> is never below
  \<open>2 powr emin\<close> (gradual underflow; \<open>-149\<close> and \<open>-1074\<close>), and the result is
  \<open>None\<close> when the rounded magnitude reaches \<open>2 powr emax\<close> (overflow; \<open>128\<close> and
  \<open>1024\<close>). \<open>rnd\<close> turns the rounding of a real other than zero into a value: an
  infinity on overflow, a zero on underflow, both with the sign of the real.
\<close>

definition rne :: "real \<Rightarrow> int" where
  "rne x = (let f = \<lfloor>x\<rfloor>; r = x - of_int f
            in if r < 1 / 2 then f else if 1 / 2 < r then f + 1
               else if even f then f else f + 1)"

definition quantum :: "nat \<Rightarrow> int \<Rightarrow> real \<Rightarrow> int" where
  "quantum p emin x = max (\<lfloor>log 2 \<bar>x\<bar>\<rfloor> - int p + 1) emin"

definition round_to :: "nat \<Rightarrow> int \<Rightarrow> int \<Rightarrow> real \<Rightarrow> real option" where
  "round_to p emin emax x =
     (if x = 0 then Some 0
      else let u = 2 powr of_int (quantum p emin x);
               y = of_int (rne (x / u)) * u
           in if 2 powr of_int emax \<le> \<bar>y\<bar> then None else Some y)"

definition round32 :: "real \<Rightarrow> real option" where
  "round32 = round_to 24 (- 149) 128"

definition round64 :: "real \<Rightarrow> real option" where
  "round64 = round_to 53 (- 1074) 1024"

datatype fl = Zero bool | Num real | Inf bool | NaN

fun fl_neg :: "fl \<Rightarrow> fl" where
  "fl_neg (Zero s) = Zero (\<not> s)"
| "fl_neg (Num x) = Num (- x)"
| "fl_neg (Inf s) = Inf (\<not> s)"
| "fl_neg NaN = NaN"

definition rnd :: "(real \<Rightarrow> real option) \<Rightarrow> real \<Rightarrow> fl" where
  "rnd r x = (case r x of None \<Rightarrow> Inf (x < 0)
              | Some y \<Rightarrow> if y = 0 then Zero (x < 0) else Num y)"

text \<open>The sum of two zeros is \<open>-0\<close> only if both are; an exact sum 0 of two numbers is \<open>+0\<close>.\<close>

fun fl_add :: "(real \<Rightarrow> real option) \<Rightarrow> fl \<Rightarrow> fl \<Rightarrow> fl" where
  "fl_add r NaN b = NaN"
| "fl_add r (Inf s) NaN = NaN"
| "fl_add r (Inf s) (Inf t) = (if s = t then Inf s else NaN)"
| "fl_add r (Inf s) (Zero t) = Inf s"
| "fl_add r (Inf s) (Num y) = Inf s"
| "fl_add r (Zero s) NaN = NaN"
| "fl_add r (Zero s) (Inf t) = Inf t"
| "fl_add r (Zero s) (Zero t) = Zero (s \<and> t)"
| "fl_add r (Zero s) (Num y) = rnd r y"
| "fl_add r (Num x) NaN = NaN"
| "fl_add r (Num x) (Inf t) = Inf t"
| "fl_add r (Num x) (Zero t) = rnd r x"
| "fl_add r (Num x) (Num y) = (if x + y = 0 then Zero False else rnd r (x + y))"

definition fl_sub :: "(real \<Rightarrow> real option) \<Rightarrow> fl \<Rightarrow> fl \<Rightarrow> fl" where
  "fl_sub r a b = fl_add r a (fl_neg b)"

fun fl_mul :: "(real \<Rightarrow> real option) \<Rightarrow> fl \<Rightarrow> fl \<Rightarrow> fl" where
  "fl_mul r NaN b = NaN"
| "fl_mul r (Inf s) NaN = NaN"
| "fl_mul r (Inf s) (Zero t) = NaN"
| "fl_mul r (Inf s) (Inf t) = Inf (s \<noteq> t)"
| "fl_mul r (Inf s) (Num y) = Inf (s \<noteq> (y < 0))"
| "fl_mul r (Zero s) NaN = NaN"
| "fl_mul r (Zero s) (Inf t) = NaN"
| "fl_mul r (Zero s) (Zero t) = Zero (s \<noteq> t)"
| "fl_mul r (Zero s) (Num y) = Zero (s \<noteq> (y < 0))"
| "fl_mul r (Num x) NaN = NaN"
| "fl_mul r (Num x) (Inf t) = Inf ((x < 0) \<noteq> t)"
| "fl_mul r (Num x) (Zero t) = Zero ((x < 0) \<noteq> t)"
| "fl_mul r (Num x) (Num y) = rnd r (x * y)"

fun fl_div :: "(real \<Rightarrow> real option) \<Rightarrow> fl \<Rightarrow> fl \<Rightarrow> fl" where
  "fl_div r NaN b = NaN"
| "fl_div r (Inf s) NaN = NaN"
| "fl_div r (Inf s) (Inf t) = NaN"
| "fl_div r (Inf s) (Zero t) = Inf (s \<noteq> t)"
| "fl_div r (Inf s) (Num y) = Inf (s \<noteq> (y < 0))"
| "fl_div r (Zero s) NaN = NaN"
| "fl_div r (Zero s) (Zero t) = NaN"
| "fl_div r (Zero s) (Inf t) = Zero (s \<noteq> t)"
| "fl_div r (Zero s) (Num y) = Zero (s \<noteq> (y < 0))"
| "fl_div r (Num x) NaN = NaN"
| "fl_div r (Num x) (Inf t) = Zero ((x < 0) \<noteq> t)"
| "fl_div r (Num x) (Zero t) = Inf ((x < 0) \<noteq> t)"
| "fl_div r (Num x) (Num y) = rnd r (x / y)"

fun fl_sqrt :: "(real \<Rightarrow> real option) \<Rightarrow> fl \<Rightarrow> fl" where
  "fl_sqrt r NaN = NaN"
| "fl_sqrt r (Inf s) = (if s then NaN else Inf False)"
| "fl_sqrt r (Zero s) = Zero s"
| "fl_sqrt r (Num x) = (if x < 0 then NaN else rnd r (sqrt x))"

text \<open>The conversion to a narrower format, and the conversion of an \<^verbatim>\<open>int\<close>.\<close>

fun fl_cast :: "(real \<Rightarrow> real option) \<Rightarrow> fl \<Rightarrow> fl" where
  "fl_cast r (Num x) = rnd r x"
| "fl_cast r (Zero s) = Zero s"
| "fl_cast r (Inf s) = Inf s"
| "fl_cast r NaN = NaN"

definition fl_of_int :: "(real \<Rightarrow> real option) \<Rightarrow> int \<Rightarrow> fl" where
  "fl_of_int r i = (if i = 0 then Zero False else rnd r (of_int i))"

definition ieee :: "(fl, fl) arith" where
  "ieee = \<lparr>f_zero = Zero False,
           f_add = fl_add round32,
           f_sub = fl_sub round32,
           f_mul = fl_mul round32,
           f_div = fl_div round32,
           f_of_int = fl_of_int round32,
           f_to_d = (\<lambda>x. x),
           d_one = Num 1,
           d_add = fl_add round64,
           d_sqrt = fl_sqrt round64,
           d_div = fl_div round64,
           d_to_f = fl_cast round32\<rparr>"



subsection \<open>Auxiliary notions for the proofs\<close>

text \<open>An accumulation over the loop nest from a given start.\<close>

definition acc_nhw ::
  "('a, 'd) arith \<Rightarrow> nat \<Rightarrow> nat \<Rightarrow> nat \<Rightarrow> (nat \<Rightarrow> nat \<Rightarrow> nat \<Rightarrow> 'a) \<Rightarrow> 'a \<Rightarrow> 'a" where
  "acc_nhw A N H W f a0 = for_nhw N H W (\<lambda>n h w a. f_add A a (f n h w)) a0"

text \<open>A buffer overwritten on the offsets in \<open>A\<close> by a function of the offset.\<close>

definition over :: "nat set \<Rightarrow> (nat \<Rightarrow> 'a) \<Rightarrow> 'a buf \<Rightarrow> 'a buf" where
  "over A g b = (\<lambda>i. if i \<in> A then g i else b i)"

section \<open>Descriptors\<close>

lemma foot_iff: "foot N H W d c = {d n c h w | n h w. n < N \<and> h < H \<and> w < W}"
  unfolding foot_def by blast

lemma chan_disjoint_iff:
  "chan_disjoint N C H W d \<longleftrightarrow>
     (\<forall>c<C. \<forall>c'<C. c \<noteq> c' \<longrightarrow>
        (\<forall>n<N. \<forall>h<H. \<forall>w<W. \<forall>n'<N. \<forall>h'<H. \<forall>w'<W. d n c h w \<noteq> d n' c' h' w'))"
  unfolding chan_disjoint_def foot_iff by (simp add: disjoint_iff) blast

lemma inj_desc4_iff:
  "inj_desc4 N C H W d \<longleftrightarrow>
     (\<forall>n<N. \<forall>c<C. \<forall>h<H. \<forall>w<W. \<forall>n'<N. \<forall>c'<C. \<forall>h'<H. \<forall>w'<W.
        d n c h w = d n' c' h' w' \<longrightarrow> n = n' \<and> c = c' \<and> h = h' \<and> w = w')"
  unfolding inj_desc4_def by (simp add: Ball_def)

lemma chan_disjoint2_iff:
  "chan_disjoint2 C d \<longleftrightarrow>
     (\<forall>c<C. \<forall>c'<C. c \<noteq> c' \<longrightarrow> (\<forall>r<2. \<forall>r'<2. d r c \<noteq> d r' c'))"
  unfolding chan_disjoint2_def by (simp add: Ball_def)

lemma inj_desc2_iff:
  "inj_desc2 C d \<longleftrightarrow>
     (\<forall>r<2. \<forall>c<C. \<forall>r'<2. \<forall>c'<C. d r c = d r' c' \<longrightarrow> r = r' \<and> c = c')"
  unfolding inj_desc2_def by (simp add: Ball_def)

lemma image2_iff: "image2 C d = {d r c | r c. r < 2 \<and> c < C}"
  unfolding image2_def by blast

lemma ws_cells_iff:
  "ws_cells C workspace_d = {workspace_d 0 + c | c. c < C} \<union> {workspace_d C + c | c. c < C}"
  unfolding ws_cells_def by blast

section \<open>The loop nest\<close>

lemma fold_concat_list: "fold f (concat xss) = fold (fold f) xss"
  by (induction xss) simp_all

lemma for_nhw_flat:
  "for_nhw N H W body s = fold (\<lambda>(n, h, w). body n h w) (nhw_list N H W) s"
  by (simp add: for_nhw_def nhw_list_def fold_concat_list fold_map comp_def)

lemma set_nhw_list: "set (nhw_list N H W) = {(n, h, w). n < N \<and> h < H \<and> w < W}"
  by (auto simp: nhw_list_def image_iff)

text \<open>
  A loop that only updates one cell: \<open>get\<close> and \<open>put\<close> read and write the cell, and
  the update may read a part \<open>g\<close> of the state that the cell is not in. The loop is the
  same accumulation on the value of the cell alone.
\<close>

lemma fold_lens_acc:
  fixes get :: "'s \<Rightarrow> 'v" and put :: "'v \<Rightarrow> 's \<Rightarrow> 's" and g :: "'s \<Rightarrow> 'b"
  assumes gp: "\<And>v s. get (put v s) = v"
    and pp: "\<And>u v s. put u (put v s) = put u s"
    and pg: "\<And>s. put (get s) s = s"
    and inv: "\<And>v s. g (put v s) = g s"
  shows "fold (\<lambda>x s. put (f (get s) x (g s)) s) xs s
           = put (fold (\<lambda>x a. f a x (g s)) xs (get s)) s"
proof (induction xs arbitrary: s)
  case Nil
  show ?case by (simp add: pg)
next
  case (Cons x xs)
  show ?case by (simp add: Cons.IH gp pp inv)
qed

lemma for_nhw_lens:
  fixes get :: "'s \<Rightarrow> 'v" and put :: "'v \<Rightarrow> 's \<Rightarrow> 's" and g :: "'s \<Rightarrow> 'b"
  assumes gp: "\<And>v s. get (put v s) = v"
    and pp: "\<And>u v s. put u (put v s) = put u s"
    and pg: "\<And>s. put (get s) s = s"
    and inv: "\<And>v s. g (put v s) = g s"
  shows "for_nhw N H W (\<lambda>n h w s. put (f (get s) n h w (g s)) s) s
           = put (for_nhw N H W (\<lambda>n h w a. f a n h w (g s)) (get s)) s"
proof -
  have "fold (\<lambda>x s. put ((\<lambda>a (n, h, w). f a n h w) (get s) x (g s)) s) (nhw_list N H W) s
      = put (fold (\<lambda>x a. (\<lambda>a (n, h, w). f a n h w) a x (g s)) (nhw_list N H W) (get s)) s"
    using gp pp pg inv by (rule fold_lens_acc)
  then show ?thesis
    by (simp add: for_nhw_flat case_prod_unfold)
qed

lemma fold_foldl_map: "fold (\<lambda>x a. g a (f x)) xs a0 = foldl g a0 (map f xs)"
  by (induction xs arbitrary: a0) simp_all

lemma acc_nhw_sum:
  "acc_nhw A N H W f (f_zero A) = sum_seq A (map (\<lambda>(n, h, w). f n h w) (nhw_list N H W))"
proof -
  have "(\<lambda>(n, h, w) a. f_add A a (f n h w)) = (\<lambda>x a. f_add A a ((\<lambda>(n, h, w). f n h w) x))"
    by (simp add: fun_eq_iff)
  then show ?thesis
    by (simp add: acc_nhw_def for_nhw_flat sum_seq_def fold_foldl_map)
qed



section \<open>The forward kernel, channel by channel\<close>

lemma get_set_mean: "get_mean c (set_mean c v s) = v"
  by (simp add: get_mean_def set_mean_def split: option.splits)

lemma set_set_mean: "set_mean c u (set_mean c v s) = set_mean c u s"
  by (simp add: set_mean_def split: option.splits)

lemma set_get_mean: "set_mean c (get_mean c s) s = s"
  by (simp add: get_mean_def set_mean_def split: option.splits)

lemma get_set_variance: "get_variance C c (set_variance C c v s) = v"
  by (simp add: get_variance_def set_variance_def split: option.splits)

lemma set_set_variance: "set_variance C c u (set_variance C c v s) = set_variance C c u s"
  by (simp add: set_variance_def split: option.splits)

lemma set_get_variance: "set_variance C c (get_variance C c s) s = s"
  by (simp add: get_variance_def set_variance_def split: option.splits)

lemma get_mean_set_variance: "c < C \<Longrightarrow> get_mean c (set_variance C c v s) = get_mean c s"
  by (simp add: get_mean_def set_variance_def split: option.splits)

lemma get_variance_set_mean: "c < C \<Longrightarrow> get_variance C c (set_mean c v s) = get_variance C c s"
  by (simp add: get_variance_def set_mean_def split: option.splits)

lemma set_variance_mean_variance:
  "c < C \<Longrightarrow> set_variance C c u (set_mean c m (set_variance C c v s)) = set_variance C c u (set_mean c m s)"
  by (cases "ws s") (simp_all add: set_variance_def set_mean_def fun_upd_twist)

lemma fwd_init_eq: "fwd_init A C c s = set_mean c (f_zero A) (set_variance C c (f_zero A) s)"
  by (simp add: fwd_init_def Let_def get_set_variance)

lemma fwd_mean_eq:
  "fwd_mean A N H W data_d src c s =
     set_mean c (f_div A (acc_nhw A N H W (\<lambda>n h w. src (data_d n c h w)) (get_mean c s))
                         (f_of_int A (int_prod3 W N H))) s"
proof -
  have "for_nhw N H W
          (\<lambda>n h w t. set_mean c ((\<lambda>a n h w (u::unit). f_add A a (src (data_d n c h w)))
                                    (get_mean c t) n h w ((\<lambda>_. ()) t)) t) s
      = set_mean c (for_nhw N H W
            (\<lambda>n h w a. (\<lambda>a n h w (u::unit). f_add A a (src (data_d n c h w))) a n h w ((\<lambda>_. ()) s))
            (get_mean c s)) s"
    by (rule for_nhw_lens) (simp_all add: get_set_mean set_set_mean set_get_mean)
  then show ?thesis
    by (simp add: fwd_mean_def Let_def acc_nhw_def get_set_mean set_set_mean)
qed

lemma fwd_sqsum_eq:
  assumes "c < C"
  shows "fwd_sqsum A N C H W data_d src c s =
     set_variance C c
       (acc_nhw A N H W
          (\<lambda>n h w. f_mul A (f_sub A (src (data_d n c h w)) (get_mean c s))
                           (f_sub A (src (data_d n c h w)) (get_mean c s)))
          (get_variance C c s)) s"
proof -
  have "for_nhw N H W
          (\<lambda>n h w t. set_variance C c
             ((\<lambda>a n h w m. f_add A a (f_mul A (f_sub A (src (data_d n c h w)) m)
                                              (f_sub A (src (data_d n c h w)) m)))
                (get_variance C c t) n h w (get_mean c t)) t) s
      = set_variance C c (for_nhw N H W
            (\<lambda>n h w a. (\<lambda>a n h w m. f_add A a (f_mul A (f_sub A (src (data_d n c h w)) m)
                                              (f_sub A (src (data_d n c h w)) m)))
                          a n h w (get_mean c s))
            (get_variance C c s)) s"
    by (rule for_nhw_lens)
      (simp_all add: get_set_variance set_set_variance set_get_variance get_mean_set_variance assms)
  then show ?thesis
    by (simp add: fwd_sqsum_def Let_def acc_nhw_def)
qed

lemma over_over: "over A g (over B g b) = over (A \<union> B) g b"
  by (auto simp: over_def)

lemma over_empty: "over {} g b = b"
  by (simp add: over_def)

lemma fold_over:
  assumes step: "\<And>x t. body x t = t\<lparr>dst := over {k x} (g (a t)) (dst t)\<rparr>"
    and inv: "\<And>t d. a (t\<lparr>dst := d\<rparr>) = a t"
  shows "fold body xs t = t\<lparr>dst := over (k ` set xs) (g (a t)) (dst t)\<rparr>"
proof (induction xs arbitrary: t)
  case Nil
  show ?case by (simp add: over_empty)
next
  case (Cons x xs)
  have "over (k ` set xs) (g (a t)) (over {k x} (g (a t)) (dst t))
      = over (insert (k x) (k ` set xs)) (g (a t)) (dst t)"
    by (simp add: over_over Un_commute)
  moreover have "fold body (x # xs) t = fold body xs (body x t)" by simp
  ultimately show ?case by (simp only: Cons.IH) (simp add: step inv)
qed

lemma foot_image: "(\<lambda>(n, h, w). d n c h w) ` set (nhw_list N H W) = foot N H W d c"
  by (force simp: set_nhw_list foot_iff image_iff)

lemma fwd_normalize_eq:
  "fwd_normalize A N C H W data_d scaleshift_d src scaleshift c s =
     s\<lparr>dst := over (foot N H W data_d c)
                (\<lambda>i. dst_of A scaleshift_d scaleshift c (get_mean c s) (get_variance C c s) (src i))
                (dst s)\<rparr>"
proof -
  have "fold (\<lambda>(n, h, w) t. t\<lparr>dst := (dst t)(data_d n c h w :=
                 dst_of A scaleshift_d scaleshift c (get_mean c t) (get_variance C c t)
                   (src (data_d n c h w)))\<rparr>) (nhw_list N H W) s
      = s\<lparr>dst := over ((\<lambda>(n, h, w). data_d n c h w) ` set (nhw_list N H W))
                ((\<lambda>(m, v) i. dst_of A scaleshift_d scaleshift c m v (src i))
                   ((\<lambda>t. (get_mean c t, get_variance C c t)) s))
                (dst s)\<rparr>"
    by (rule fold_over)
      (auto simp: get_mean_def get_variance_def over_def fun_eq_iff split: option.splits)
  then show ?thesis
    by (simp add: fwd_normalize_def for_nhw_flat Let_def foot_image dst_of_def)
qed

lemma dst_set_mean: "dst (set_mean c v s) = dst s"
  by (simp add: set_mean_def split: option.splits)

lemma dst_set_variance: "dst (set_variance C c v s) = dst s"
  by (simp add: set_variance_def split: option.splits)

lemma fwd_moments_eq:
  assumes "c < C"
  shows "fwd_sqsum A N C H W data_d src c (fwd_mean A N H W data_d src c (fwd_init A C c s))
       = set_variance C c (sqsum_of A N H W data_d src c)
           (set_mean c (mean_of A N H W data_d src c) s)"
  using assms
  by (simp add: fwd_sqsum_eq fwd_mean_eq fwd_init_eq
      get_set_mean set_set_mean get_set_variance set_set_variance
      get_mean_set_variance get_variance_set_mean set_variance_mean_variance
      acc_nhw_sum mean_of_def [symmetric] sqsum_of_def [symmetric])

lemma fwd_stats_eq:
  assumes "c < C"
  shows "fwd_invstd A N C H W eps c (fwd_sqsum A N C H W data_d src c
           (fwd_mean A N H W data_d src c (fwd_init A C c s)))
       = set_variance C c (invstd_of A N H W eps data_d src c)
           (set_mean c (mean_of A N H W data_d src c) s)"
  by (simp add: fwd_moments_eq [OF assms] fwd_invstd_def get_set_variance set_set_variance
      invstd_of_def variance_of_def)

lemma fwd_channel_eq:
  assumes "c < C"
  shows "fwd_channel A N C H W eps data_d scaleshift_d src scaleshift c s =
     (set_variance C c (invstd_of A N H W eps data_d src c)
        (set_mean c (mean_of A N H W data_d src c) s))
     \<lparr>dst := over (foot N H W data_d c)
                (\<lambda>i. dst_of A scaleshift_d scaleshift c (mean_of A N H W data_d src c)
                        (invstd_of A N H W eps data_d src c) (src i))
                (dst s)\<rparr>"
  using assms
  by (simp add: fwd_channel_def fwd_stats_eq fwd_normalize_eq
      get_set_mean get_set_variance get_mean_set_variance dst_set_mean dst_set_variance)

lemma dst_fwd_channel:
  "c < C \<Longrightarrow> dst (fwd_channel A N C H W eps data_d scaleshift_d src scaleshift c s) =
     over (foot N H W data_d c)
       (\<lambda>i. dst_of A scaleshift_d scaleshift c (mean_of A N H W data_d src c)
               (invstd_of A N H W eps data_d src c) (src i))
       (dst s)"
  by (simp add: fwd_channel_eq)

lemma ws_fwd_channel:
  "c < C \<Longrightarrow> ws (fwd_channel A N C H W eps data_d scaleshift_d src scaleshift c s) =
     map_option (\<lambda>b. b(c := mean_of A N H W data_d src c,
                        C + c := invstd_of A N H W eps data_d src c)) (ws s)"
  by (simp add: fwd_channel_eq set_mean_def set_variance_def split: option.splits)


lemma dst_fold_frame:
  "\<forall>c\<in>set cs. c < C \<and> i \<notin> foot N H W data_d c \<Longrightarrow>
   dst (fold (fwd_channel A N C H W eps data_d scaleshift_d src scaleshift) cs s) i = dst s i"
  by (induction cs arbitrary: s) (simp_all add: dst_fwd_channel over_def)

lemma dst_fold_value:
  assumes "\<forall>c'\<in>set cs. c' < C" and "c \<in> set cs" and "i \<in> foot N H W data_d c"
    and "\<forall>c'\<in>set cs. c' \<noteq> c \<longrightarrow> i \<notin> foot N H W data_d c'"
  shows "dst (fold (fwd_channel A N C H W eps data_d scaleshift_d src scaleshift) cs s) i =
     dst_of A scaleshift_d scaleshift c (mean_of A N H W data_d src c)
       (invstd_of A N H W eps data_d src c) (src i)"
  using assms
proof (induction cs arbitrary: s)
  case Nil
  then show ?case by simp
next
  case (Cons x xs)
  show ?case
  proof (cases "c \<in> set xs")
    case True
    with Cons.prems show ?thesis by (simp add: Cons.IH)
  next
    case False
    with Cons.prems have x: "x = c" and fr: "\<forall>c'\<in>set xs. c' < C \<and> i \<notin> foot N H W data_d c'"
      by auto
    from Cons.prems x show ?thesis
      by (simp add: dst_fold_frame [OF fr] dst_fwd_channel over_def)
  qed
qed

lemma dst_fold_eq:
  "\<forall>c\<in>set cs. c < C \<Longrightarrow>
   dst (fold (fwd_channel A N C H W eps data_d scaleshift_d src scaleshift) cs s) =
   fold (\<lambda>c. over (foot N H W data_d c)
       (\<lambda>i. dst_of A scaleshift_d scaleshift c (mean_of A N H W data_d src c)
               (invstd_of A N H W eps data_d src c) (src i))) cs (dst s)"
  by (induction cs arbitrary: s) (simp_all add: dst_fwd_channel)

lemma ws_fold:
  "\<forall>c\<in>set cs. c < C \<Longrightarrow>
   ws (fold (fwd_channel A N C H W eps data_d scaleshift_d src scaleshift) cs s) =
     map_option (\<lambda>b i. if i < C \<and> i \<in> set cs then mean_of A N H W data_d src i
                        else if C \<le> i \<and> i - C \<in> set cs then invstd_of A N H W eps data_d src (i - C)
                        else b i) (ws s)"
proof (induction cs arbitrary: s)
  case Nil
  show ?case by (simp add: option.map_ident)
next
  case (Cons x xs)
  then have x: "x < C" and xs: "\<forall>c\<in>set xs. c < C" by simp_all
  from x show ?case
    by (cases "ws s") (auto simp: Cons.IH [OF xs] ws_fwd_channel [OF x] fun_eq_iff)
qed

section \<open>The forward kernel as a whole\<close>

lemma foot_I: "n < N \<Longrightarrow> h < H \<Longrightarrow> w < W \<Longrightarrow> d n c h w \<in> foot N H W d c"
  by (auto simp: foot_iff)

lemma chan_disjoint_foot:
  "chan_disjoint N C H W d \<Longrightarrow> c < C \<Longrightarrow> c' < C \<Longrightarrow> c' \<noteq> c \<Longrightarrow> i \<in> foot N H W d c
     \<Longrightarrow> i \<notin> foot N H W d c'"
  by (auto simp: chan_disjoint_iff foot_iff)

lemma fwd_run_dst:
  assumes cd: "chan_disjoint N C H W data_d" and cs: "set cs = {..<C}"
    and "n < N" "c < C" "h < H" "w < W"
  shows "fst (fwd_run cs A N C H W eps data_d scaleshift_d src scaleshift dst0 ws0) (data_d n c h w) =
     dst_of A scaleshift_d scaleshift c (mean_of A N H W data_d src c)
       (invstd_of A N H W eps data_d src c) (src (data_d n c h w))"
proof -
  have 1: "\<forall>c'\<in>set cs. c' < C" using cs by simp
  have 2: "c \<in> set cs" using cs \<open>c < C\<close> by simp
  have 3: "data_d n c h w \<in> foot N H W data_d c" using assms by (simp add: foot_I)
  have 4: "\<forall>c'\<in>set cs. c' \<noteq> c \<longrightarrow> data_d n c h w \<notin> foot N H W data_d c'"
    using chan_disjoint_foot [OF cd \<open>c < C\<close> _ _ 3] 1 by blast
  show ?thesis
    by (simp add: fwd_run_def Let_def dst_fold_value [OF 1 2 3 4])
qed

lemma fwd_run_ws:
  assumes "set cs = {..<C}"
  shows "snd (fwd_run cs A N C H W eps data_d scaleshift_d src scaleshift dst0 ws0) =
     map_option (\<lambda>b i. if i < C then mean_of A N H W data_d src i
                        else if i < 2 * C then invstd_of A N H W eps data_d src (i - C)
                        else b i) ws0"
proof -
  have 1: "\<forall>c\<in>set cs. c < C" using assms by simp
  have mem: "\<And>i. i \<in> set cs \<longleftrightarrow> i < C" using assms by simp
  have "(if i < C \<and> i \<in> set cs then mean_of A N H W data_d src i
                else if C \<le> i \<and> i - C \<in> set cs then invstd_of A N H W eps data_d src (i - C)
                else b i)
      = (if i < C then mean_of A N H W data_d src i
                        else if i < 2 * C then invstd_of A N H W eps data_d src (i - C)
                        else b i)" for b :: "'a buf" and i
    unfolding mem by auto
  then show ?thesis
    by (simp add: fwd_run_def Let_def ws_fold [OF 1])
qed

lemma fwd_run_dst_mode:
  assumes "\<forall>c\<in>set cs. c < C"
  shows "fst (fwd_run cs A N C H W eps data_d scaleshift_d src scaleshift dst0 ws0) =
         fst (fwd_run cs A N C H W eps data_d scaleshift_d src scaleshift dst0 ws1)"
  by (simp add: fwd_run_def Let_def dst_fold_eq [OF assms])

lemma radix_eq:
  fixes a b B :: nat
  assumes "b < B" "b' < B" "a * B + b = a' * B + b'"
  shows "a = a' \<and> b = b'"
proof -
  have "(a * B + b) div B = a" using assms(1) by simp
  moreover have "(a' * B + b') div B = a'" using assms(2) by simp
  ultimately have "a = a'" using assms(3) by simp
  with assms(3) show ?thesis by simp
qed

lemma inj_desc4_nchw: "inj_desc4 N C H W (nchw C H W)"
  unfolding inj_desc4_iff nchw_def
proof (intro allI impI)
  fix n c h w n' c' h' w'
  assume b: "c < C" "h < H" "w < W" "c' < C" "h' < H" "w' < W"
    and eq: "((n * C + c) * H + h) * W + w = ((n' * C + c') * H + h') * W + w'"
  from radix_eq [OF b(3) b(6) eq] have 1: "(n * C + c) * H + h = (n' * C + c') * H + h'" and w: "w = w'"
    by simp_all
  from radix_eq [OF b(2) b(5) 1] have 2: "n * C + c = n' * C + c'" and h: "h = h'"
    by simp_all
  from radix_eq [OF b(1) b(4) 2] w h show "n = n' \<and> c = c' \<and> h = h' \<and> w = w'"
    by simp
qed

lemma inj_desc4_chan_disjoint: "inj_desc4 N C H W d \<Longrightarrow> chan_disjoint N C H W d"
  unfolding inj_desc4_iff chan_disjoint_iff by blast

lemma chan_disjoint_nchw: "chan_disjoint N C H W (nchw C H W)"
  by (rule inj_desc4_chan_disjoint) (rule inj_desc4_nchw)

lemma inj_desc2_nc: "inj_desc2 C (nc C)"
  unfolding inj_desc2_iff nc_def
  by (intro allI impI) (metis radix_eq)

lemma inj_desc2_chan_disjoint2: "inj_desc2 C d \<Longrightarrow> chan_disjoint2 C d"
  unfolding inj_desc2_iff chan_disjoint2_iff by blast

section \<open>The backward kernel, channel by channel\<close>

lemma fold_pair_foldl:
  "fold (\<lambda>x (p, q). (g p (f1 x), g q (f2 x))) xs (p0, q0)
     = (foldl g p0 (map f1 xs), foldl g q0 (map f2 xs))"
  by (induction xs arbitrary: p0 q0) simp_all

lemma bwd_sums_eq:
  "bwd_sums A N H W data_d diff_data_d src diff_dst mean c =
     (sum_seq A (map (\<lambda>(n, h, w). f_mul A (f_sub A (src (data_d n c h w)) mean)
                                          (diff_dst (diff_data_d n c h w))) (nhw_list N H W)),
      diff_beta_of A N H W diff_data_d diff_dst c)"
proof -
  have "bwd_sums A N H W data_d diff_data_d src diff_dst mean c
      = fold (\<lambda>x (p, q).
           (f_add A p ((\<lambda>(n, h, w). f_mul A (f_sub A (src (data_d n c h w)) mean)
                                          (diff_dst (diff_data_d n c h w))) x),
            f_add A q ((\<lambda>(n, h, w). diff_dst (diff_data_d n c h w)) x)))
          (nhw_list N H W) (f_zero A, f_zero A)"
    by (simp add: bwd_sums_def for_nhw_flat case_prod_unfold)
  then show ?thesis
    by (simp only: fold_pair_foldl sum_seq_def diff_beta_of_def)
qed

text \<open>A loop that stores one value per index: cells outside stay, and where the offsets
  of the list are distinct every index finds its value.\<close>

lemma fold_store_frame:
  assumes step: "\<And>x t. body x t = t\<lparr>diff_src := (diff_src t)(k x := v x)\<rparr>"
    and "i \<notin> k ` set xs"
  shows "diff_src (fold body xs t) i = diff_src t i"
  using assms(2)
proof (induction xs arbitrary: t)
  case Nil
  show ?case by simp
next
  case (Cons y ys)
  then have "diff_src (fold body ys (body y t)) i = diff_src (body y t) i" by simp
  also have "\<dots> = diff_src t i" using Cons.prems by (simp add: step)
  finally show ?case by simp
qed

lemma fold_store_other:
  assumes step: "\<And>x t. body x t = t\<lparr>diff_src := (diff_src t)(k x := v x)\<rparr>"
  shows "diff_scaleshift (fold body xs t) = diff_scaleshift t"
proof (induction xs arbitrary: t)
  case Nil
  show ?case by simp
next
  case (Cons y ys)
  have "diff_scaleshift (fold body ys (body y t)) = diff_scaleshift (body y t)" by (rule Cons.IH)
  also have "\<dots> = diff_scaleshift t" by (simp add: step)
  finally show ?case by simp
qed

lemma fold_store_value:
  assumes step: "\<And>x t. body x t = t\<lparr>diff_src := (diff_src t)(k x := v x)\<rparr>"
    and "i \<in> k ` set xs" and "\<forall>y\<in>set xs. k y = i \<longrightarrow> v y = a"
  shows "diff_src (fold body xs t) i = a"
  using assms(2,3)
proof (induction xs arbitrary: t)
  case Nil
  then show ?case by simp
next
  case (Cons y ys)
  have all: "\<forall>z\<in>set ys. k z = i \<longrightarrow> v z = a" using Cons.prems(2) by simp
  show ?case
  proof (cases "i \<in> k ` set ys")
    case True
    then have "diff_src (fold body ys (body y t)) i = a"
      using all by (rule Cons.IH)
    then show ?thesis by simp
  next
    case False
    with Cons.prems(1) have y: "k y = i" by auto
    with Cons.prems(2) have vy: "v y = a" by simp
    have "diff_src (fold body ys (body y t)) i = diff_src (body y t) i"
      using step False by (rule fold_store_frame)
    also have "\<dots> = a" by (simp add: step y vy)
    finally show ?thesis by simp
  qed
qed

lemma bwd_diff_src_step:
  "(\<lambda>(n, h, w) t.
          let d1 = (diff_src t)(diff_data_d n c h w :=
                      f_sub A
                        (f_sub A (diff_dst (diff_data_d n c h w))
                                 (f_div A diff_beta (f_of_int A (int_prod3 W H N))))
                        (f_div A
                           (f_mul A (f_mul A (f_sub A (src (data_d n c h w)) mean) diff_gamma)
                                    variance)
                           (f_of_int A (int_prod3 W H N))));
              d2 = d1(diff_data_d n c h w :=
                      f_mul A (d1 (diff_data_d n c h w)) (f_mul A gamma variance))
          in t\<lparr>diff_src := d2\<rparr>) x t
   = t\<lparr>diff_src := (diff_src t)((\<lambda>(n, h, w). diff_data_d n c h w) x :=
        (\<lambda>(n, h, w).
           f_mul A
             (f_sub A
                (f_sub A (diff_dst (diff_data_d n c h w))
                         (f_div A diff_beta (f_of_int A (int_prod3 W H N))))
                (f_div A
                   (f_mul A (f_mul A (f_sub A (src (data_d n c h w)) mean) diff_gamma) variance)
                   (f_of_int A (int_prod3 W H N))))
             (f_mul A gamma variance)) x)\<rparr>"
  by (simp add: case_prod_unfold Let_def)

lemma bwd_diff_src_frame:
  assumes "i \<notin> foot N H W diff_data_d c"
  shows "diff_src (bwd_diff_src A N H W data_d diff_data_d src diff_dst mean variance gamma
            diff_gamma diff_beta c s) i = diff_src s i"
  unfolding bwd_diff_src_def for_nhw_flat
  by (rule fold_store_frame [OF bwd_diff_src_step]) (simp add: foot_image assms)

lemma bwd_diff_src_other:
  "diff_scaleshift (bwd_diff_src A N H W data_d diff_data_d src diff_dst mean variance gamma
            diff_gamma diff_beta c s) = diff_scaleshift s"
  unfolding bwd_diff_src_def for_nhw_flat
  by (rule fold_store_other [OF bwd_diff_src_step])

lemma bwd_diff_src_value:
  assumes "n < N" "h < H" "w < W"
    and "\<forall>n'<N. \<forall>h'<H. \<forall>w'<W. diff_data_d n' c h' w' = diff_data_d n c h w
            \<longrightarrow> n' = n \<and> h' = h \<and> w' = w"
  shows "diff_src (bwd_diff_src A N H W data_d diff_data_d src diff_dst mean variance gamma
            diff_gamma diff_beta c s) (diff_data_d n c h w)
       = f_mul A
             (f_sub A
                (f_sub A (diff_dst (diff_data_d n c h w))
                         (f_div A diff_beta (f_of_int A (int_prod3 W H N))))
                (f_div A
                   (f_mul A (f_mul A (f_sub A (src (data_d n c h w)) mean) diff_gamma) variance)
                   (f_of_int A (int_prod3 W H N))))
             (f_mul A gamma variance)"
  unfolding bwd_diff_src_def for_nhw_flat
proof (rule fold_store_value [OF bwd_diff_src_step])
  show "diff_data_d n c h w \<in> (\<lambda>(n, h, w). diff_data_d n c h w) ` set (nhw_list N H W)"
    using assms(1-3) by (simp add: foot_image foot_I)
  show "\<forall>y\<in>set (nhw_list N H W). (case y of (n, h, w) \<Rightarrow> diff_data_d n c h w) = diff_data_d n c h w \<longrightarrow>
      (case y of (n, h, w) \<Rightarrow>
           f_mul A
             (f_sub A
                (f_sub A (diff_dst (diff_data_d n c h w))
                         (f_div A diff_beta (f_of_int A (int_prod3 W H N))))
                (f_div A
                   (f_mul A (f_mul A (f_sub A (src (data_d n c h w)) mean) diff_gamma) variance)
                   (f_of_int A (int_prod3 W H N))))
             (f_mul A gamma variance))
       = f_mul A
             (f_sub A
                (f_sub A (diff_dst (diff_data_d n c h w))
                         (f_div A diff_beta (f_of_int A (int_prod3 W H N))))
                (f_div A
                   (f_mul A (f_mul A (f_sub A (src (data_d n c h w)) mean) diff_gamma) variance)
                   (f_of_int A (int_prod3 W H N))))
             (f_mul A gamma variance)"
    using assms(4) by (auto simp: set_nhw_list)
qed

lemma diff_src_bwd_store: "diff_src (bwd_store d c g b s) = diff_src s"
  by (simp add: bwd_store_def split: option.splits)

lemma diff_scaleshift_bwd_store:
  "diff_scaleshift (bwd_store d c g e s) =
     map_option (\<lambda>b. (b(d 0 c := g))(d 1 c := e)) (diff_scaleshift s)"
  by (simp add: bwd_store_def split: option.splits)

lemma fold_store_cong:
  assumes step: "\<And>x t. body x t = t\<lparr>diff_src := (diff_src t)(k x := v x)\<rparr>"
    and "diff_src t = diff_src t'"
  shows "diff_src (fold body xs t) = diff_src (fold body xs t')"
  using assms(2)
proof (induction xs arbitrary: t t')
  case Nil
  then show ?case by simp
next
  case (Cons y ys)
  have "diff_src (body y t) = diff_src (body y t')" by (simp add: step Cons.prems)
  then have "diff_src (fold body ys (body y t)) = diff_src (fold body ys (body y t'))"
    by (rule Cons.IH)
  then show ?case by simp
qed

lemma bwd_diff_src_cong:
  assumes "diff_src s = diff_src s'"
  shows "diff_src (bwd_diff_src A N H W data_d diff_data_d src diff_dst mean variance gamma
            diff_gamma diff_beta c s)
       = diff_src (bwd_diff_src A N H W data_d diff_data_d src diff_dst mean variance gamma
            diff_gamma diff_beta c s')"
  unfolding bwd_diff_src_def for_nhw_flat
  using bwd_diff_src_step assms by (rule fold_store_cong)

lemma bwd_channel_eq:
  "bwd_channel A N C H W data_d diff_data_d scaleshift_d diff_scaleshift_d workspace_d
       src diff_dst scaleshift wsp c s =
   bwd_diff_src A N H W data_d diff_data_d src diff_dst (wsp (workspace_d 0 + c))
     (wsp (workspace_d C + c)) (scaleshift (scaleshift_d 0 c))
     (diff_gamma_of A N H W data_d diff_data_d src diff_dst (wsp (workspace_d 0 + c))
        (wsp (workspace_d C + c)) c)
     (diff_beta_of A N H W diff_data_d diff_dst c) c
     (bwd_store diff_scaleshift_d c
        (diff_gamma_of A N H W data_d diff_data_d src diff_dst (wsp (workspace_d 0 + c))
           (wsp (workspace_d C + c)) c)
        (diff_beta_of A N H W diff_data_d diff_dst c) s)"
  by (simp add: bwd_channel_def bwd_sums_eq Let_def diff_gamma_of_def)

lemma ds_bwd_channel:
  "diff_scaleshift (bwd_channel A N C H W data_d diff_data_d scaleshift_d diff_scaleshift_d
       workspace_d src diff_dst scaleshift wsp c s) =
     map_option (\<lambda>b. (b(diff_scaleshift_d 0 c :=
          diff_gamma_of A N H W data_d diff_data_d src diff_dst (wsp (workspace_d 0 + c))
            (wsp (workspace_d C + c)) c))
        (diff_scaleshift_d 1 c := diff_beta_of A N H W diff_data_d diff_dst c))
      (diff_scaleshift s)"
  unfolding bwd_channel_eq bwd_diff_src_other diff_scaleshift_bwd_store ..

lemma bwd_channel_frame:
  assumes "i \<notin> foot N H W diff_data_d c"
  shows "diff_src (bwd_channel A N C H W data_d diff_data_d scaleshift_d diff_scaleshift_d
       workspace_d src diff_dst scaleshift wsp c s) i = diff_src s i"
  unfolding bwd_channel_eq by (simp add: bwd_diff_src_frame [OF assms] diff_src_bwd_store)

lemma bwd_channel_value:
  assumes "n < N" "h < H" "w < W"
    and "\<forall>n'<N. \<forall>h'<H. \<forall>w'<W. diff_data_d n' c h' w' = diff_data_d n c h w
            \<longrightarrow> n' = n \<and> h' = h \<and> w' = w"
  shows "diff_src (bwd_channel A N C H W data_d diff_data_d scaleshift_d diff_scaleshift_d
       workspace_d src diff_dst scaleshift wsp c s) (diff_data_d n c h w)
     = diff_src_of A N H W data_d diff_data_d src diff_dst (scaleshift (scaleshift_d 0 c))
         (wsp (workspace_d 0 + c)) (wsp (workspace_d C + c)) c n h w"
  unfolding bwd_channel_eq
  by (simp only: bwd_diff_src_value [where diff_data_d = diff_data_d and c = c, OF assms]
      diff_src_of_def)

lemma bwd_channel_cong:
  assumes "diff_src s = diff_src s'"
  shows "diff_src (bwd_channel A N C H W data_d diff_data_d scaleshift_d diff_scaleshift_d
       workspace_d src diff_dst scaleshift wsp c s)
     = diff_src (bwd_channel A N C H W data_d diff_data_d scaleshift_d diff_scaleshift_d
       workspace_d src diff_dst scaleshift wsp c s')"
  unfolding bwd_channel_eq
  by (rule bwd_diff_src_cong) (simp add: diff_src_bwd_store assms)

lemma bwd_fold_frame:
  "\<forall>c\<in>set cs. i \<notin> foot N H W diff_data_d c \<Longrightarrow>
   diff_src (fold (bwd_channel A N C H W data_d diff_data_d scaleshift_d diff_scaleshift_d
       workspace_d src diff_dst scaleshift wsp) cs s) i = diff_src s i"
  by (induction cs arbitrary: s) (simp_all add: bwd_channel_frame)

lemma bwd_fold_cong:
  "diff_src s = diff_src s' \<Longrightarrow>
   diff_src (fold (bwd_channel A N C H W data_d diff_data_d scaleshift_d diff_scaleshift_d
       workspace_d src diff_dst scaleshift wsp) cs s)
   = diff_src (fold (bwd_channel A N C H W data_d diff_data_d scaleshift_d diff_scaleshift_d
       workspace_d src diff_dst scaleshift wsp) cs s')"
proof (induction cs arbitrary: s s')
  case Nil
  then show ?case by simp
next
  case (Cons x xs)
  show ?case
    using Cons.IH [OF bwd_channel_cong [OF Cons.prems]] by simp
qed

lemma bwd_fold_value:
  assumes "c \<in> set cs" and "n < N" "h < H" "w < W"
    and "\<forall>n'<N. \<forall>h'<H. \<forall>w'<W. diff_data_d n' c h' w' = diff_data_d n c h w
            \<longrightarrow> n' = n \<and> h' = h \<and> w' = w"
    and "\<forall>c'\<in>set cs. c' \<noteq> c \<longrightarrow> diff_data_d n c h w \<notin> foot N H W diff_data_d c'"
  shows "diff_src (fold (bwd_channel A N C H W data_d diff_data_d scaleshift_d diff_scaleshift_d
       workspace_d src diff_dst scaleshift wsp) cs s) (diff_data_d n c h w)
     = diff_src_of A N H W data_d diff_data_d src diff_dst (scaleshift (scaleshift_d 0 c))
         (wsp (workspace_d 0 + c)) (wsp (workspace_d C + c)) c n h w"
  using assms(1,6)
proof (induction cs arbitrary: s)
  case Nil
  then show ?case by simp
next
  case (Cons x xs)
  show ?case
  proof (cases "c \<in> set xs")
    case True
    with Cons.prems show ?thesis by (simp add: Cons.IH)
  next
    case False
    with Cons.prems have x: "x = c"
      and fr: "\<forall>c'\<in>set xs. diff_data_d n c h w \<notin> foot N H W diff_data_d c'"
      by auto
    show ?thesis
      by (simp add: bwd_fold_frame [OF fr] x
          bwd_channel_value [where diff_data_d = diff_data_d and c = c, OF assms(2-5)])
  qed
qed

lemma ds_bwd_fold:
  "diff_scaleshift (fold (bwd_channel A N C H W data_d diff_data_d scaleshift_d diff_scaleshift_d
       workspace_d src diff_dst scaleshift wsp) cs s) =
     map_option (fold (\<lambda>c b. (b(diff_scaleshift_d 0 c :=
          diff_gamma_of A N H W data_d diff_data_d src diff_dst (wsp (workspace_d 0 + c))
            (wsp (workspace_d C + c)) c))
        (diff_scaleshift_d 1 c := diff_beta_of A N H W diff_data_d diff_dst c)) cs)
      (diff_scaleshift s)"
proof (induction cs arbitrary: s)
  case Nil
  show ?case by (simp add: option.map_ident)
next
  case (Cons x xs)
  show ?case
    by (simp only: fold_simps comp_apply Cons.IH ds_bwd_channel option.map_comp comp_def)
qed

lemma fold_rows_frame:
  fixes b :: "'a buf"
  assumes step: "\<And>c b. F c b = (b(k0 c := g c))(k1 c := e c)"
    and "\<forall>c\<in>set cs. i \<noteq> k0 c \<and> i \<noteq> k1 c"
  shows "fold F cs b i = b i"
  using assms(2)
proof (induction cs arbitrary: b)
  case Nil
  show ?case by simp
next
  case (Cons x xs)
  then have "fold F xs (F x b) i = F x b i" by simp
  also have "\<dots> = b i" using Cons.prems by (simp add: step)
  finally show ?case by simp
qed


section \<open>The backward kernel as a whole\<close>

lemma inj_desc4_channel:
  "inj_desc4 N C H W d \<Longrightarrow> c < C \<Longrightarrow> n < N \<Longrightarrow> h < H \<Longrightarrow> w < W \<Longrightarrow>
   \<forall>n'<N. \<forall>h'<H. \<forall>w'<W. d n' c h' w' = d n c h w \<longrightarrow> n' = n \<and> h' = h \<and> w' = w"
  unfolding inj_desc4_iff by blast

lemma bwd_run_diff_src:
  assumes inj: "inj_desc4 N C H W diff_data_d" and cs: "set cs = {..<C}"
    and "n < N" "c < C" "h < H" "w < W"
  shows "fst (bwd_run cs A N C H W data_d diff_data_d scaleshift_d diff_scaleshift_d workspace_d
           src diff_dst scaleshift wsp ds0 dss0) (diff_data_d n c h w)
     = diff_src_of A N H W data_d diff_data_d src diff_dst (scaleshift (scaleshift_d 0 c))
         (wsp (workspace_d 0 + c)) (wsp (workspace_d C + c)) c n h w"
proof -
  have 1: "c \<in> set cs" using cs \<open>c < C\<close> by simp
  have 2: "\<forall>n'<N. \<forall>h'<H. \<forall>w'<W. diff_data_d n' c h' w' = diff_data_d n c h w
            \<longrightarrow> n' = n \<and> h' = h \<and> w' = w"
    using inj assms(4,3,5,6) by (rule inj_desc4_channel)
  have 3: "diff_data_d n c h w \<in> foot N H W diff_data_d c" using assms by (simp add: foot_I)
  have 4: "\<forall>c'\<in>set cs. c' \<noteq> c \<longrightarrow> diff_data_d n c h w \<notin> foot N H W diff_data_d c'"
    using chan_disjoint_foot [OF inj_desc4_chan_disjoint [OF inj] \<open>c < C\<close> _ _ 3] cs by auto
  show ?thesis
    unfolding bwd_run_def Let_def fst_conv
    using 1 assms(3,5,6) 2 4 by (rule bwd_fold_value)
qed


lemma bwd_run_mode:
  "fst (bwd_run cs A N C H W data_d diff_data_d scaleshift_d diff_scaleshift_d workspace_d
           src diff_dst scaleshift wsp ds0 dss0)
   = fst (bwd_run cs A N C H W data_d diff_data_d scaleshift_d diff_scaleshift_d workspace_d
           src diff_dst scaleshift wsp ds0 dss1)"
  unfolding bwd_run_def Let_def fst_conv
  by (rule bwd_fold_cong) simp

lemma bwd_run_null:
  "snd (bwd_run cs A N C H W data_d diff_data_d scaleshift_d diff_scaleshift_d workspace_d
           src diff_dst scaleshift wsp ds0 None) = None"
  unfolding bwd_run_def Let_def snd_conv ds_bwd_fold by simp

section \<open>Independence of the order of the channels\<close>

lemma fold_store_det:
  assumes step: "\<And>x t. body x t = t\<lparr>diff_src := (diff_src t)(k x := v x)\<rparr>"
    and "i \<in> k ` set xs"
  shows "diff_src (fold body xs t) i = diff_src (fold body xs t') i"
  using assms(2)
proof (induction xs arbitrary: t t')
  case Nil
  then show ?case by simp
next
  case (Cons y ys)
  show ?case
  proof (cases "i \<in> k ` set ys")
    case True
    then have "diff_src (fold body ys (body y t)) i = diff_src (fold body ys (body y t')) i"
      by (rule Cons.IH)
    then show ?thesis by simp
  next
    case False
    with Cons.prems have y: "k y = i" by auto
    have "diff_src (fold body ys (body y t)) i = diff_src (body y t) i"
      using step False by (rule fold_store_frame)
    moreover have "diff_src (fold body ys (body y t')) i = diff_src (body y t') i"
      using step False by (rule fold_store_frame)
    moreover have "diff_src (body y t) i = diff_src (body y t') i"
      by (simp add: step y)
    ultimately show ?thesis by simp
  qed
qed

lemma bwd_channel_det:
  assumes "i \<in> foot N H W diff_data_d c"
  shows "diff_src (bwd_channel A N C H W data_d diff_data_d scaleshift_d diff_scaleshift_d
       workspace_d src diff_dst scaleshift wsp c s) i
     = diff_src (bwd_channel A N C H W data_d diff_data_d scaleshift_d diff_scaleshift_d
       workspace_d src diff_dst scaleshift wsp c s') i"
  unfolding bwd_channel_eq bwd_diff_src_def for_nhw_flat
  by (rule fold_store_det [OF bwd_diff_src_step]) (simp add: foot_image assms)

lemma bwd_fold_det:
  assumes "c \<in> set cs" and "i \<in> foot N H W diff_data_d c"
    and "\<forall>c'\<in>set cs. c' \<noteq> c \<longrightarrow> i \<notin> foot N H W diff_data_d c'"
  shows "diff_src (fold (bwd_channel A N C H W data_d diff_data_d scaleshift_d diff_scaleshift_d
       workspace_d src diff_dst scaleshift wsp) cs s) i
     = diff_src (bwd_channel A N C H W data_d diff_data_d scaleshift_d diff_scaleshift_d
       workspace_d src diff_dst scaleshift wsp c s') i"
  using assms(1,3)
proof (induction cs arbitrary: s)
  case Nil
  then show ?case by simp
next
  case (Cons x xs)
  show ?case
  proof (cases "c \<in> set xs")
    case True
    with Cons.prems show ?thesis by (simp add: Cons.IH)
  next
    case False
    with Cons.prems have x: "x = c"
      and fr: "\<forall>c'\<in>set xs. i \<notin> foot N H W diff_data_d c'"
      by auto
    show ?thesis
      using bwd_channel_det [OF assms(2), of A C data_d scaleshift_d diff_scaleshift_d
          workspace_d src diff_dst scaleshift wsp s s']
      by (simp add: bwd_fold_frame [OF fr] x)
  qed
qed

lemma fold_rows_det:
  fixes b :: "'a buf"
  assumes step: "\<And>c b. F c b = (b(k0 c := g c))(k1 c := e c)"
    and "c \<in> set cs" and "i = k0 c \<or> i = k1 c"
    and "\<forall>c'\<in>set cs. c' \<noteq> c \<longrightarrow> i \<noteq> k0 c' \<and> i \<noteq> k1 c'"
  shows "fold F cs b i = F c b' i"
  using assms(2,4)
proof (induction cs arbitrary: b)
  case Nil
  then show ?case by simp
next
  case (Cons x xs)
  show ?case
  proof (cases "c \<in> set xs")
    case True
    then have "fold F xs (F x b) i = F c b' i"
      using Cons.prems(2) by (intro Cons.IH) simp_all
    then show ?thesis by simp
  next
    case False
    with Cons.prems have x: "x = c" and fr: "\<forall>c'\<in>set xs. i \<noteq> k0 c' \<and> i \<noteq> k1 c'"
      by auto
    have "fold F xs (F x b) i = F x b i"
      using step fr by (rule fold_rows_frame)
    moreover have "F x b i = F c b' i"
      using assms(3) by (auto simp: step x)
    moreover have "fold F (x # xs) b = fold F xs (F x b)" by simp
    ultimately show ?thesis by (simp only:)
  qed
qed

lemma foot_E:
  assumes "i \<in> foot N H W d c"
  obtains n h w where "n < N" "h < H" "w < W" "i = d n c h w"
  using assms by (auto simp: foot_iff)

lemma fwd_run_sched:
  assumes cd: "chan_disjoint N C H W data_d" and cs: "set cs = {..<C}" and cs': "set cs' = {..<C}"
  shows "fwd_run cs A N C H W eps data_d scaleshift_d src scaleshift dst0 ws0
       = fwd_run cs' A N C H W eps data_d scaleshift_d src scaleshift dst0 ws0"
proof (rule prod_eqI)
  show "snd (fwd_run cs A N C H W eps data_d scaleshift_d src scaleshift dst0 ws0)
      = snd (fwd_run cs' A N C H W eps data_d scaleshift_d src scaleshift dst0 ws0)"
    by (simp only: fwd_run_ws [OF cs] fwd_run_ws [OF cs'])
  show "fst (fwd_run cs A N C H W eps data_d scaleshift_d src scaleshift dst0 ws0)
      = fst (fwd_run cs' A N C H W eps data_d scaleshift_d src scaleshift dst0 ws0)"
  proof (rule ext)
    fix i
    show "fst (fwd_run cs A N C H W eps data_d scaleshift_d src scaleshift dst0 ws0) i
        = fst (fwd_run cs' A N C H W eps data_d scaleshift_d src scaleshift dst0 ws0) i"
    proof (cases "\<exists>c<C. i \<in> foot N H W data_d c")
      case True
      then obtain c where c: "c < C" "i \<in> foot N H W data_d c" by blast
      from c(2) obtain n h w where i: "n < N" "h < H" "w < W" "i = data_d n c h w"
        by (rule foot_E)
      show ?thesis
        unfolding i(4)
        by (simp only: fwd_run_dst [OF cd cs i(1) c(1) i(2,3)] fwd_run_dst [OF cd cs' i(1) c(1) i(2,3)])
    next
      case False
      then have "\<forall>c\<in>set cs. c < C \<and> i \<notin> foot N H W data_d c"
        "\<forall>c\<in>set cs'. c < C \<and> i \<notin> foot N H W data_d c"
        using cs cs' by auto
      then show ?thesis
        by (simp add: fwd_run_def Let_def dst_fold_frame)
    qed
  qed
qed

lemma fold_rows_sched:
  fixes b :: "'a buf"
  assumes step: "\<And>c b. F c b = (b(k0 c := g c))(k1 c := e c)"
    and cd: "chan_disjoint2 C (\<lambda>r. if r = 0 then k0 else k1)"
    and cs: "set cs = {..<C}" and cs': "set cs' = {..<C}"
  shows "fold F cs b = fold F cs' b"
proof (rule ext)
  fix i
  have sep: "i \<noteq> k0 c' \<and> i \<noteq> k1 c'" if "c < C" "i = k0 c \<or> i = k1 c" "c' < C" "c' \<noteq> c" for c c'
  proof -
    have r: "(0::nat) < 2" "(1::nat) < 2" by simp_all
    from cd that(1,3,4)
    have "\<And>r r'. r < 2 \<Longrightarrow> r' < 2 \<Longrightarrow>
        (if r = (0::nat) then k0 else k1) c \<noteq> (if r' = (0::nat) then k0 else k1) c'"
      unfolding chan_disjoint2_iff by blast
    from this [OF r(1) r(1)] this [OF r(1) r(2)] this [OF r(2) r(1)] this [OF r(2) r(2)] that(2)
    show ?thesis by auto
  qed
  show "fold F cs b i = fold F cs' b i"
  proof (cases "\<exists>c<C. i = k0 c \<or> i = k1 c")
    case True
    then obtain c where c: "c < C" "i = k0 c \<or> i = k1 c" by blast
    have 1: "c \<in> set cs" "c \<in> set cs'" using c(1) cs cs' by simp_all
    have 2: "\<forall>c'\<in>set cs. c' \<noteq> c \<longrightarrow> i \<noteq> k0 c' \<and> i \<noteq> k1 c'"
      "\<forall>c'\<in>set cs'. c' \<noteq> c \<longrightarrow> i \<noteq> k0 c' \<and> i \<noteq> k1 c'"
      using sep [OF c] cs cs' by simp_all
    have "fold F cs b i = F c b i" using step 1(1) c(2) 2(1) by (rule fold_rows_det)
    moreover have "fold F cs' b i = F c b i" using step 1(2) c(2) 2(2) by (rule fold_rows_det)
    ultimately show ?thesis by simp
  next
    case False
    then have 3: "\<forall>c\<in>set cs. i \<noteq> k0 c \<and> i \<noteq> k1 c" "\<forall>c\<in>set cs'. i \<noteq> k0 c \<and> i \<noteq> k1 c"
      using cs cs' by auto
    have "fold F cs b i = b i" using step 3(1) by (rule fold_rows_frame)
    moreover have "fold F cs' b i = b i" using step 3(2) by (rule fold_rows_frame)
    ultimately show ?thesis by simp
  qed
qed

lemma bwd_run_sched:
  assumes cd: "chan_disjoint N C H W diff_data_d" and cd2: "chan_disjoint2 C diff_scaleshift_d"
    and cs: "set cs = {..<C}" and cs': "set cs' = {..<C}"
  shows "bwd_run cs A N C H W data_d diff_data_d scaleshift_d diff_scaleshift_d workspace_d
           src diff_dst scaleshift wsp ds0 dss0
       = bwd_run cs' A N C H W data_d diff_data_d scaleshift_d diff_scaleshift_d workspace_d
           src diff_dst scaleshift wsp ds0 dss0"
proof (rule prod_eqI)
  let ?F = "\<lambda>c b. (b(diff_scaleshift_d 0 c :=
          diff_gamma_of A N H W data_d diff_data_d src diff_dst (wsp (workspace_d 0 + c))
            (wsp (workspace_d C + c)) c))
        (diff_scaleshift_d 1 c := diff_beta_of A N H W diff_data_d diff_dst c)"
  have "(\<lambda>r. if r = 0 then diff_scaleshift_d 0 else diff_scaleshift_d 1) r c = diff_scaleshift_d r c"
    if "r < 2" for r c using that by (cases r) auto
  then have cd2': "chan_disjoint2 C (\<lambda>r. if r = 0 then diff_scaleshift_d 0 else diff_scaleshift_d 1)"
    using cd2 unfolding chan_disjoint2_iff by simp
  have "fold ?F cs b = fold ?F cs' b" for b
    using refl cd2' cs cs' by (rule fold_rows_sched)
  then show "snd (bwd_run cs A N C H W data_d diff_data_d scaleshift_d diff_scaleshift_d workspace_d
           src diff_dst scaleshift wsp ds0 dss0)
       = snd (bwd_run cs' A N C H W data_d diff_data_d scaleshift_d diff_scaleshift_d workspace_d
           src diff_dst scaleshift wsp ds0 dss0)"
    unfolding bwd_run_def Let_def snd_conv ds_bwd_fold
    by (cases dss0) simp_all
  show "fst (bwd_run cs A N C H W data_d diff_data_d scaleshift_d diff_scaleshift_d workspace_d
           src diff_dst scaleshift wsp ds0 dss0)
       = fst (bwd_run cs' A N C H W data_d diff_data_d scaleshift_d diff_scaleshift_d workspace_d
           src diff_dst scaleshift wsp ds0 dss0)"
  proof (rule ext)
    fix i
    let ?s = "\<lparr>diff_src = ds0, diff_scaleshift = dss0\<rparr>"
    show "fst (bwd_run cs A N C H W data_d diff_data_d scaleshift_d diff_scaleshift_d workspace_d
           src diff_dst scaleshift wsp ds0 dss0) i
       = fst (bwd_run cs' A N C H W data_d diff_data_d scaleshift_d diff_scaleshift_d workspace_d
           src diff_dst scaleshift wsp ds0 dss0) i"
    proof (cases "\<exists>c<C. i \<in> foot N H W diff_data_d c")
      case True
      then obtain c where c: "c < C" "i \<in> foot N H W diff_data_d c" by blast
      have 1: "c \<in> set cs" "c \<in> set cs'" using c(1) cs cs' by simp_all
      have 2: "\<forall>c'\<in>set cs. c' \<noteq> c \<longrightarrow> i \<notin> foot N H W diff_data_d c'"
        "\<forall>c'\<in>set cs'. c' \<noteq> c \<longrightarrow> i \<notin> foot N H W diff_data_d c'"
        using chan_disjoint_foot [OF cd c(1) _ _ c(2)] cs cs' by auto
      show ?thesis
        unfolding bwd_run_def Let_def fst_conv
        by (simp only: bwd_fold_det [OF 1(1) c(2) 2(1), where s' = ?s]
            bwd_fold_det [OF 1(2) c(2) 2(2), where s' = ?s])
    next
      case False
      then have "\<forall>c\<in>set cs. i \<notin> foot N H W diff_data_d c"
        "\<forall>c\<in>set cs'. i \<notin> foot N H W diff_data_d c"
        using cs cs' by auto
      then show ?thesis
        by (simp add: bwd_run_def Let_def bwd_fold_frame)
    qed
  qed
qed

section \<open>Permuting the channels\<close>

lemma map_nhw_cong:
  assumes "\<And>n h w. n < N \<Longrightarrow> h < H \<Longrightarrow> w < W \<Longrightarrow> f n h w = g n h w"
  shows "map (\<lambda>(n, h, w). f n h w) (nhw_list N H W) = map (\<lambda>(n, h, w). g n h w) (nhw_list N H W)"
  by (rule map_cong) (auto simp: set_nhw_list assms)

lemma mean_of_cong:
  assumes "\<And>n h w. n < N \<Longrightarrow> h < H \<Longrightarrow> w < W \<Longrightarrow> src' (d n c' h w) = src (d n c h w)"
  shows "mean_of A N H W d src' c' = mean_of A N H W d src c"
  unfolding mean_of_def
  by (simp only: map_nhw_cong [where f = "\<lambda>n h w. src' (d n c' h w)"
        and g = "\<lambda>n h w. src (d n c h w)", OF assms])

lemma variance_of_cong:
  assumes "\<And>n h w. n < N \<Longrightarrow> h < H \<Longrightarrow> w < W \<Longrightarrow> src' (d n c' h w) = src (d n c h w)"
  shows "variance_of A N H W d src' c' = variance_of A N H W d src c"
proof -
  have m: "mean_of A N H W d src' c' = mean_of A N H W d src c"
    using assms by (rule mean_of_cong)
  have "map (\<lambda>(n, h, w). f_mul A (f_sub A (src' (d n c' h w)) (mean_of A N H W d src c))
                                  (f_sub A (src' (d n c' h w)) (mean_of A N H W d src c)))
          (nhw_list N H W)
      = map (\<lambda>(n, h, w). f_mul A (f_sub A (src (d n c h w)) (mean_of A N H W d src c))
                                  (f_sub A (src (d n c h w)) (mean_of A N H W d src c)))
          (nhw_list N H W)"
    by (rule map_nhw_cong) (simp add: assms)
  then show ?thesis unfolding variance_of_def sqsum_of_def m by (simp only:)
qed

lemma invstd_of_cong:
  assumes "\<And>n h w. n < N \<Longrightarrow> h < H \<Longrightarrow> w < W \<Longrightarrow> src' (d n c' h w) = src (d n c h w)"
  shows "invstd_of A N H W eps d src' c' = invstd_of A N H W eps d src c"
  unfolding invstd_of_def
  by (simp only: variance_of_cong [where src' = src' and src = src and d = d, OF assms])

lemma diff_beta_of_cong:
  assumes "\<And>n h w. n < N \<Longrightarrow> h < H \<Longrightarrow> w < W \<Longrightarrow> dd' (d n c' h w) = dd (d n c h w)"
  shows "diff_beta_of A N H W d dd' c' = diff_beta_of A N H W d dd c"
  unfolding diff_beta_of_def
  by (simp only: map_nhw_cong [where f = "\<lambda>n h w. dd' (d n c' h w)"
        and g = "\<lambda>n h w. dd (d n c h w)", OF assms])

lemma diff_gamma_of_cong:
  assumes "\<And>n h w. n < N \<Longrightarrow> h < H \<Longrightarrow> w < W \<Longrightarrow> src' (d n c' h w) = src (d n c h w)"
    and "\<And>n h w. n < N \<Longrightarrow> h < H \<Longrightarrow> w < W \<Longrightarrow> dd' (e n c' h w) = dd (e n c h w)"
  shows "diff_gamma_of A N H W d e src' dd' m v c' = diff_gamma_of A N H W d e src dd m v c"
proof -
  have "map (\<lambda>(n, h, w). f_mul A (f_sub A (src' (d n c' h w)) m) (dd' (e n c' h w))) (nhw_list N H W)
      = map (\<lambda>(n, h, w). f_mul A (f_sub A (src (d n c h w)) m) (dd (e n c h w))) (nhw_list N H W)"
    by (rule map_nhw_cong) (simp add: assms)
  then show ?thesis unfolding diff_gamma_of_def by (simp only:)
qed

section \<open>Which cells the kernels read and write\<close>

lemma foot_image4: "c < C \<Longrightarrow> n < N \<Longrightarrow> h < H \<Longrightarrow> w < W \<Longrightarrow> d n c h w \<in> image4 N C H W d"
  by (auto simp: image4_def foot_iff)

lemma foot_subset_image4: "c < C \<Longrightarrow> i \<in> foot N H W d c \<Longrightarrow> i \<in> image4 N C H W d"
  by (auto simp: image4_def)

lemma image2_I: "r < 2 \<Longrightarrow> c < C \<Longrightarrow> d r c \<in> image2 C d"
  unfolding image2_iff by blast

lemma over_cong: "(\<And>i. i \<in> A \<Longrightarrow> g i = g' i) \<Longrightarrow> over A g b = over A g' b"
  by (auto simp: over_def)

lemma fwd_channel_reads:
  assumes src: "\<forall>i\<in>image4 N C H W data_d. src' i = src i"
    and ss: "\<forall>i\<in>image2 C scaleshift_d. scaleshift' i = scaleshift i"
    and c: "c < C"
  shows "fwd_channel A N C H W eps data_d scaleshift_d src' scaleshift' c s
       = fwd_channel A N C H W eps data_d scaleshift_d src scaleshift c s"
proof -
  have S: "\<And>n h w. n < N \<Longrightarrow> h < H \<Longrightarrow> w < W \<Longrightarrow> src' (data_d n c h w) = src (data_d n c h w)"
    using src c by (simp add: foot_image4)
  have m: "mean_of A N H W data_d src' c = mean_of A N H W data_d src c"
    using S by (rule mean_of_cong)
  have v: "invstd_of A N H W eps data_d src' c = invstd_of A N H W eps data_d src c"
    using S by (rule invstd_of_cong)
  have "scaleshift_d 0 c \<in> image2 C scaleshift_d" "scaleshift_d 1 c \<in> image2 C scaleshift_d"
    using c by (simp_all add: image2_I)
  with ss have G: "scaleshift' (scaleshift_d 0 c) = scaleshift (scaleshift_d 0 c)"
    "scaleshift' (scaleshift_d 1 c) = scaleshift (scaleshift_d 1 c)"
    by blast+
  have d: "dst_of A scaleshift_d scaleshift' c x y z = dst_of A scaleshift_d scaleshift c x y z"
    for x y z
    by (simp only: dst_of_def G)
  have o: "over (foot N H W data_d c)
        (\<lambda>i. dst_of A scaleshift_d scaleshift c (mean_of A N H W data_d src c)
                (invstd_of A N H W eps data_d src c) (src' i)) (dst s)
      = over (foot N H W data_d c)
        (\<lambda>i. dst_of A scaleshift_d scaleshift c (mean_of A N H W data_d src c)
                (invstd_of A N H W eps data_d src c) (src i)) (dst s)"
    by (rule over_cong) (simp add: src foot_subset_image4 [OF c])
  show ?thesis
    by (simp only: fwd_channel_eq [OF c] m v d o)
qed

lemma bwd_channel_reads:
  assumes src: "\<forall>i\<in>image4 N C H W data_d. src' i = src i"
    and dd: "\<forall>i\<in>image4 N C H W diff_data_d. diff_dst' i = diff_dst i"
    and ss: "\<forall>i\<in>image2 C scaleshift_d. scaleshift' i = scaleshift i"
    and ws: "\<forall>i\<in>ws_cells C workspace_d. wsp' i = wsp i"
    and c: "c < C"
  shows "bwd_channel A N C H W data_d diff_data_d scaleshift_d diff_scaleshift_d workspace_d
           src' diff_dst' scaleshift' wsp' c s
       = bwd_channel A N C H W data_d diff_data_d scaleshift_d diff_scaleshift_d workspace_d
           src diff_dst scaleshift wsp c s"
proof -
  have S: "\<And>n h w. n < N \<Longrightarrow> h < H \<Longrightarrow> w < W \<Longrightarrow> src' (data_d n c h w) = src (data_d n c h w)"
    using src c by (simp add: foot_image4)
  have D: "\<And>n h w. n < N \<Longrightarrow> h < H \<Longrightarrow> w < W \<Longrightarrow>
      diff_dst' (diff_data_d n c h w) = diff_dst (diff_data_d n c h w)"
    using dd c by (simp add: foot_image4)
  have "scaleshift_d 0 c \<in> image2 C scaleshift_d"
    using c by (simp add: image2_I)
  with ss have G: "scaleshift' (scaleshift_d 0 c) = scaleshift (scaleshift_d 0 c)"
    by blast
  have "workspace_d 0 + c \<in> ws_cells C workspace_d" "workspace_d C + c \<in> ws_cells C workspace_d"
    using c by (auto simp: ws_cells_iff)
  with ws have M: "wsp' (workspace_d 0 + c) = wsp (workspace_d 0 + c)"
    "wsp' (workspace_d C + c) = wsp (workspace_d C + c)"
    by blast+
  have b: "diff_beta_of A N H W diff_data_d diff_dst' c = diff_beta_of A N H W diff_data_d diff_dst c"
    using D by (rule diff_beta_of_cong)
  have g: "diff_gamma_of A N H W data_d diff_data_d src' diff_dst' x y c
         = diff_gamma_of A N H W data_d diff_data_d src diff_dst x y c" for x y
    using S D by (rule diff_gamma_of_cong)
  have p: "bwd_diff_src A N H W data_d diff_data_d src' diff_dst' x y z u v c t
         = bwd_diff_src A N H W data_d diff_data_d src diff_dst x y z u v c t" for x y z u v t
    unfolding bwd_diff_src_def for_nhw_flat
    by (rule fold_cong) (auto simp: set_nhw_list S D)
  show ?thesis
    by (simp only: bwd_channel_eq M G b g p)
qed

lemma fwd_run_reads:
  assumes "\<forall>i\<in>image4 N C H W data_d. src' i = src i"
    and "\<forall>i\<in>image2 C scaleshift_d. scaleshift' i = scaleshift i"
    and "\<forall>c\<in>set cs. c < C"
  shows "fwd_run cs A N C H W eps data_d scaleshift_d src' scaleshift' dst0 ws0
       = fwd_run cs A N C H W eps data_d scaleshift_d src scaleshift dst0 ws0"
proof -
  have "fold (fwd_channel A N C H W eps data_d scaleshift_d src' scaleshift') cs s
      = fold (fwd_channel A N C H W eps data_d scaleshift_d src scaleshift) cs s" for s
    using assms(3) by (intro fold_cong refl ext fwd_channel_reads [OF assms(1,2)]) simp
  then show ?thesis by (simp only: fwd_run_def)
qed

lemma bwd_run_reads:
  assumes "\<forall>i\<in>image4 N C H W data_d. src' i = src i"
    and "\<forall>i\<in>image4 N C H W diff_data_d. diff_dst' i = diff_dst i"
    and "\<forall>i\<in>image2 C scaleshift_d. scaleshift' i = scaleshift i"
    and "\<forall>i\<in>ws_cells C workspace_d. wsp' i = wsp i"
    and "\<forall>c\<in>set cs. c < C"
  shows "bwd_run cs A N C H W data_d diff_data_d scaleshift_d diff_scaleshift_d workspace_d
           src' diff_dst' scaleshift' wsp' ds0 dss0
       = bwd_run cs A N C H W data_d diff_data_d scaleshift_d diff_scaleshift_d workspace_d
           src diff_dst scaleshift wsp ds0 dss0"
proof -
  have "fold (bwd_channel A N C H W data_d diff_data_d scaleshift_d diff_scaleshift_d workspace_d
           src' diff_dst' scaleshift' wsp') cs s
      = fold (bwd_channel A N C H W data_d diff_data_d scaleshift_d diff_scaleshift_d workspace_d
           src diff_dst scaleshift wsp) cs s" for s
    using assms(5) by (intro fold_cong refl ext bwd_channel_reads [OF assms(1-4)]) simp
  then show ?thesis by (simp only: bwd_run_def)
qed

lemma fwd_run_frame:
  assumes "i \<notin> image4 N C H W data_d" and "\<forall>c\<in>set cs. c < C"
  shows "fst (fwd_run cs A N C H W eps data_d scaleshift_d src scaleshift dst0 ws0) i = dst0 i"
proof -
  have "\<forall>c\<in>set cs. c < C \<and> i \<notin> foot N H W data_d c"
    using assms by (auto simp: image4_def)
  then show ?thesis by (simp add: fwd_run_def Let_def dst_fold_frame)
qed

lemma bwd_run_frame:
  assumes "i \<notin> image4 N C H W diff_data_d" and "\<forall>c\<in>set cs. c < C"
  shows "fst (bwd_run cs A N C H W data_d diff_data_d scaleshift_d diff_scaleshift_d workspace_d
           src diff_dst scaleshift wsp ds0 dss0) i = ds0 i"
proof -
  have "\<forall>c\<in>set cs. i \<notin> foot N H W diff_data_d c"
    using assms by (auto simp: image4_def)
  then show ?thesis by (simp add: bwd_run_def Let_def bwd_fold_frame)
qed

lemma bwd_run_rows_frame:
  assumes "i \<notin> image2 C diff_scaleshift_d" and "\<forall>c\<in>set cs. c < C"
  shows "map_option (\<lambda>b. b i)
           (snd (bwd_run cs A N C H W data_d diff_data_d scaleshift_d diff_scaleshift_d workspace_d
                   src diff_dst scaleshift wsp ds0 (Some e0))) = Some (e0 i)"
proof -
  let ?F = "\<lambda>c b. (b(diff_scaleshift_d 0 c :=
          diff_gamma_of A N H W data_d diff_data_d src diff_dst (wsp (workspace_d 0 + c))
            (wsp (workspace_d C + c)) c))
        (diff_scaleshift_d 1 c := diff_beta_of A N H W diff_data_d diff_dst c)"
  have "\<forall>c\<in>set cs. i \<noteq> diff_scaleshift_d 0 c \<and> i \<noteq> diff_scaleshift_d 1 c"
  proof (intro ballI conjI notI)
    fix c assume c: "c \<in> set cs"
    then have "c < C" using assms(2) by simp
    then have "diff_scaleshift_d 0 c \<in> image2 C diff_scaleshift_d"
      "diff_scaleshift_d 1 c \<in> image2 C diff_scaleshift_d"
      by (simp_all add: image2_I)
    then show "i = diff_scaleshift_d 0 c \<Longrightarrow> False" "i = diff_scaleshift_d 1 c \<Longrightarrow> False"
      using assms(1) by simp_all
  qed
  with refl have "fold ?F cs e0 i = e0 i" by (rule fold_rows_frame)
  then show ?thesis
    unfolding bwd_run_def Let_def snd_conv ds_bwd_fold by simp
qed

section \<open>Rounding in binary32 and binary64\<close>

lemma rne_of_int: "rne (of_int m) = m"
  by (simp add: rne_def)

lemma rne_eqI:
  assumes "of_int m - 1 / 2 < x" "x < of_int m + 1 / 2"
  shows "rne x = m"
proof -
  have f: "\<lfloor>x\<rfloor> = m \<or> \<lfloor>x\<rfloor> = m - 1" using assms by linarith
  then show ?thesis
  proof
    assume "\<lfloor>x\<rfloor> = m"
    moreover from this have "x - of_int m < 1 / 2" using assms by linarith
    ultimately show ?thesis by (simp add: rne_def)
  next
    assume a: "\<lfloor>x\<rfloor> = m - 1"
    then have "1 / 2 < x - of_int (m - 1)" using assms by simp
    with a show ?thesis by (simp add: rne_def)
  qed
qed

lemma quantum_eq:
  assumes "x \<noteq> 0" "2 powr of_int (q + int p - 1) \<le> \<bar>x\<bar>" "\<bar>x\<bar> < 2 powr of_int (q + int p)"
    "emin \<le> q"
  shows "quantum p emin x = q"
proof -
  have "\<lfloor>log 2 \<bar>x\<bar>\<rfloor> = q + int p - 1"
    using assms(1-3) by (subst floor_log_eq_powr_iff) (simp_all add: algebra_simps)
  then show ?thesis using assms(4) by (simp add: quantum_def)
qed

lemma round_to_eval:
  assumes "x \<noteq> 0" "u = 2 powr of_int q" "u * 2 ^ (p - 1) \<le> \<bar>x\<bar>" "\<bar>x\<bar> < u * 2 ^ p"
    "emin \<le> q" "0 < p"
  shows "round_to p emin emax x =
     (let y = of_int (rne (x / u)) * u in if 2 powr of_int emax \<le> \<bar>y\<bar> then None else Some y)"
proof -
  have 1: "2 powr of_int (q + int p - 1) = u * 2 ^ (p - 1)"
    using assms(6)
    by (simp add: assms(2) powr_add powr_realpow [symmetric] of_nat_diff algebra_simps powr_diff)
  have 2: "2 powr of_int (q + int p) = u * 2 ^ p"
    by (simp add: assms(2) powr_add powr_realpow [symmetric])
  have "quantum p emin x = q"
    using assms(1) _ _ assms(5) by (rule quantum_eq) (simp_all only: 1 2 assms(3,4))
  then show ?thesis using assms(1) by (simp add: round_to_def assms(2) Let_def)
qed

lemma round_to_exact:
  assumes x: "x = of_int m * 2 powr of_int e" and m: "\<bar>m\<bar> < 2 ^ p" and e: "emin \<le> e"
    and r: "\<bar>x\<bar> < 2 powr of_int emax" and p: "0 < p"
  shows "round_to p emin emax x = Some x"
proof (cases "x = 0")
  case True
  then show ?thesis by (simp add: round_to_def)
next
  case False
  then have m0: "m \<noteq> 0" using x by auto
  define q where "q = quantum p emin x"
  have ax: "\<bar>x\<bar> = of_int \<bar>m\<bar> * 2 powr of_int e" by (simp add: x abs_mult)
  from m have "(of_int \<bar>m\<bar> :: real) < of_int (2 ^ p)" by (simp only: of_int_less_iff)
  then have "(of_int \<bar>m\<bar> :: real) < 2 ^ p" by simp
  then have "\<bar>x\<bar> < 2 ^ p * 2 powr of_int e"
    unfolding ax by (intro mult_strict_right_mono) simp_all
  also have "\<dots> = 2 powr of_int (int p + e)"
    by (simp add: powr_add powr_realpow [symmetric])
  finally have "log 2 \<bar>x\<bar> < of_int (int p + e)"
    using False by (subst log_less_iff) simp_all
  then have "\<lfloor>log 2 \<bar>x\<bar>\<rfloor> < int p + e" by linarith
  then have qe: "q \<le> e" using e by (simp add: q_def quantum_def)
  then obtain d where d: "e = q + int d" by (metis zle_iff_zadd)
  have "x / 2 powr of_int q = of_int (m * 2 ^ d)"
    by (simp add: x d powr_add powr_realpow [symmetric])
  then have "of_int (rne (x / 2 powr of_int q)) * 2 powr of_int q = x"
    by (simp only: rne_of_int) (simp add: x d powr_add powr_realpow [symmetric])
  then show ?thesis
    using False r by (simp add: round_to_def Let_def q_def [symmetric])
qed

lemma round_to_dyadic:
  assumes "\<bar>m\<bar> < 2 ^ p" "- int k \<ge> emin" "0 < p" "int p \<le> emax"
  shows "round_to p emin emax (of_int m / 2 ^ k) = Some (of_int m / 2 ^ k)"
proof (rule round_to_exact [where m = m and e = "- int k"])
  show "(of_int m / 2 ^ k :: real) = of_int m * 2 powr of_int (- int k)"
    by (simp add: powr_minus_divide powr_realpow [symmetric])
  from assms(1) have "(of_int \<bar>m\<bar> :: real) < of_int (2 ^ p)" by (simp only: of_int_less_iff)
  then have "\<bar>of_int m :: real\<bar> < 2 ^ p" by simp
  moreover have "\<bar>of_int m / 2 ^ k :: real\<bar> \<le> \<bar>of_int m\<bar>"
    by (simp add: abs_divide divide_le_eq_1 mult_le_cancel_left1 field_simps)
  moreover have "(2::real) ^ p \<le> 2 powr of_int emax"
    using assms(4) by (simp add: powr_realpow [symmetric])
  ultimately show "\<bar>of_int m / 2 ^ k :: real\<bar> < 2 powr of_int emax" by linarith
qed (use assms in simp_all)

lemma round32_dyadic:
  "\<bar>m\<bar> < 2 ^ 24 \<Longrightarrow> k \<le> 149 \<Longrightarrow> round32 (of_int m / 2 ^ k) = Some (of_int m / 2 ^ k)"
  unfolding round32_def by (rule round_to_dyadic) simp_all

lemma round64_dyadic:
  "\<bar>m\<bar> < 2 ^ 53 \<Longrightarrow> k \<le> 1074 \<Longrightarrow> round64 (of_int m / 2 ^ k) = Some (of_int m / 2 ^ k)"
  unfolding round64_def by (rule round_to_dyadic) simp_all

lemmas round32_exact =
  round32_dyadic [of "numeral a" 0, simplified]
  round32_dyadic [of "- numeral a" 0, simplified]
  round32_dyadic [of "1" 0, simplified]
  round32_dyadic [of "- 1" 0, simplified]
  round32_dyadic [of "numeral a" 1, simplified]
  round32_dyadic [of "- numeral a" 1, simplified]
  round32_dyadic [of "1" 1, simplified]
  round32_dyadic [of "- 1" 1, simplified]
  round32_dyadic [of "numeral a" 2, simplified]
  round32_dyadic [of "- numeral a" 2, simplified]
  round32_dyadic [of "1" 2, simplified]
  round32_dyadic [of "- 1" 2, simplified]
  round32_dyadic [of "numeral a" 3, simplified]
  round32_dyadic [of "- numeral a" 3, simplified]
  round32_dyadic [of "1" 3, simplified]
  round32_dyadic [of "- 1" 3, simplified]
  round32_dyadic [of "numeral a" 4, simplified]
  round32_dyadic [of "- numeral a" 4, simplified]
  round32_dyadic [of "1" 4, simplified]
  round32_dyadic [of "- 1" 4, simplified]
  round32_dyadic [of "numeral a" 5, simplified]
  round32_dyadic [of "- numeral a" 5, simplified]
  round32_dyadic [of "1" 5, simplified]
  round32_dyadic [of "- 1" 5, simplified]
  round32_dyadic [of "numeral a" 6, simplified]
  round32_dyadic [of "- numeral a" 6, simplified]
  round32_dyadic [of "1" 6, simplified]
  round32_dyadic [of "- 1" 6, simplified]
  round32_dyadic [of "numeral a" 7, simplified]
  round32_dyadic [of "- numeral a" 7, simplified]
  round32_dyadic [of "1" 7, simplified]
  round32_dyadic [of "- 1" 7, simplified]
  round32_dyadic [of "numeral a" 8, simplified]
  round32_dyadic [of "- numeral a" 8, simplified]
  round32_dyadic [of "1" 8, simplified]
  round32_dyadic [of "- 1" 8, simplified]
  round32_dyadic [of 0 0, simplified]
  for a

lemmas round64_exact =
  round64_dyadic [of "numeral a" 0, simplified]
  round64_dyadic [of "- numeral a" 0, simplified]
  round64_dyadic [of "1" 0, simplified]
  round64_dyadic [of "- 1" 0, simplified]
  round64_dyadic [of "numeral a" 1, simplified]
  round64_dyadic [of "- numeral a" 1, simplified]
  round64_dyadic [of "1" 1, simplified]
  round64_dyadic [of "- 1" 1, simplified]
  round64_dyadic [of "numeral a" 2, simplified]
  round64_dyadic [of "- numeral a" 2, simplified]
  round64_dyadic [of "1" 2, simplified]
  round64_dyadic [of "- 1" 2, simplified]
  round64_dyadic [of "numeral a" 3, simplified]
  round64_dyadic [of "- numeral a" 3, simplified]
  round64_dyadic [of "1" 3, simplified]
  round64_dyadic [of "- 1" 3, simplified]
  round64_dyadic [of "numeral a" 4, simplified]
  round64_dyadic [of "- numeral a" 4, simplified]
  round64_dyadic [of "1" 4, simplified]
  round64_dyadic [of "- 1" 4, simplified]
  round64_dyadic [of "numeral a" 5, simplified]
  round64_dyadic [of "- numeral a" 5, simplified]
  round64_dyadic [of "1" 5, simplified]
  round64_dyadic [of "- 1" 5, simplified]
  round64_dyadic [of "numeral a" 6, simplified]
  round64_dyadic [of "- numeral a" 6, simplified]
  round64_dyadic [of "1" 6, simplified]
  round64_dyadic [of "- 1" 6, simplified]
  round64_dyadic [of "numeral a" 7, simplified]
  round64_dyadic [of "- numeral a" 7, simplified]
  round64_dyadic [of "1" 7, simplified]
  round64_dyadic [of "- 1" 7, simplified]
  round64_dyadic [of "numeral a" 8, simplified]
  round64_dyadic [of "- numeral a" 8, simplified]
  round64_dyadic [of "1" 8, simplified]
  round64_dyadic [of "- 1" 8, simplified]
  round64_dyadic [of 0 0, simplified]
  for a

lemma ieee_simps:
  "f_zero ieee = Zero False"
  "f_add ieee = fl_add round32"
  "f_sub ieee = fl_sub round32"
  "f_mul ieee = fl_mul round32"
  "f_div ieee = fl_div round32"
  "f_of_int ieee = fl_of_int round32"
  "f_to_d ieee a = a"
  "d_one ieee = Num 1"
  "d_add ieee = fl_add round64"
  "d_sqrt ieee = fl_sqrt round64"
  "d_div ieee = fl_div round64"
  "d_to_f ieee = fl_cast round32"
  by (simp_all add: ieee_def)

lemmas fl_simps = ieee_simps rnd_def fl_sub_def fl_of_int_def






lemma rne_sqrt:
  assumes "0 < m" "(2 * of_int m - 1)\<^sup>2 < 4 * x * u\<^sup>2" "4 * x * u\<^sup>2 < (2 * of_int m + 1)\<^sup>2"
    "0 < u" "0 \<le> x"
  shows "rne (sqrt x * u) = m"
proof (rule rne_eqI)
  have e: "sqrt x * u = sqrt (4 * x * u\<^sup>2) / 2"
    using assms(4,5) by (simp add: real_sqrt_mult)
  have "2 * of_int m - 1 < sqrt (4 * x * u\<^sup>2)"
    using assms(2) by (rule real_less_rsqrt)
  then show "of_int m - 1 / 2 < sqrt x * u" unfolding e by simp
  have "sqrt (4 * x * u\<^sup>2) < 2 * of_int m + 1"
    using assms(1,3) by (intro real_less_lsqrt) simp_all
  then show "sqrt x * u < of_int m + 1 / 2" unfolding e by simp
qed

lemma sqrt5_bounds: "2 \<le> sqrt 5" "sqrt 5 < 4"
proof -
  show "2 \<le> sqrt 5" by (rule real_le_rsqrt) simp
  show "sqrt 5 < 4" by (rule real_less_lsqrt) simp_all
qed

lemma round64_sqrt5: "round64 (sqrt 5) = Some (5035177455121576 / 2 ^ 51)"
proof -
  have r: "rne (sqrt 5 * 2 ^ 51) = 5035177455121576"
    by (rule rne_sqrt) simp_all
  have "round64 (sqrt 5) =
     (let y = of_int (rne (sqrt 5 / (1 / 2 ^ 51))) * (1 / 2 ^ 51)
      in if 2 powr of_int 1024 \<le> \<bar>y\<bar> then None else Some y)"
    unfolding round64_def using sqrt5_bounds
    by (intro round_to_eval [where q = "- 51"]) (simp_all add: powr_numeral powr_minus_divide)
  then show ?thesis
    using r by (simp add: Let_def powr_numeral)
qed

lemma round64_inv_sqrt5:
  "round64 (1 / (5035177455121576 / 2 ^ 51)) = Some (8056283928194521 / 2 ^ 54)"
  unfolding round64_def
  by (subst round_to_eval [where q = "- 54" and u = "1 / 2 ^ 54"])
    (simp_all add: rne_def powr_numeral powr_minus_divide)

lemma round32_inv_sqrt5:
  "round32 (8056283928194521 / 2 ^ 54) = Some (7502999 / 16777216)"
  unfolding round32_def
  by (subst round_to_eval [where q = "- 25" and u = "1 / 2 ^ 25"])
    (simp_all add: rne_def powr_numeral powr_minus_divide)


section \<open>Concrete runs in binary32\<close>




lemma nhw_list_2_1_2: "nhw_list 2 1 2 = [(0, 0, 0), (0, 0, 1), (1, 0, 0), (1, 0, 1)]"
  by (simp add: nhw_list_def upt_rec)

lemma ex_mean:
  "mean_of ieee 2 1 2 (nchw 1 1 2) (\<lambda>i. [Num 1, Num 3, Num 5, Num 7] ! i) 0 = Num 4"
  by (simp add: mean_of_def sum_seq_def nhw_list_2_1_2 nchw_def fl_simps round32_exact
      int_prod3_def wrap32_def del: One_nat_def)

lemma ex_variance:
  "variance_of ieee 2 1 2 (nchw 1 1 2) (\<lambda>i. [Num 1, Num 3, Num 5, Num 7] ! i) 0 = Num 5"
  by (simp add: variance_of_def sqsum_of_def ex_mean sum_seq_def nhw_list_2_1_2 nchw_def fl_simps
      round32_exact int_prod3_def wrap32_def del: One_nat_def)

lemma ex_invstd:
  "invstd_of ieee 2 1 2 (Zero False) (nchw 1 1 2) (\<lambda>i. [Num 1, Num 3, Num 5, Num 7] ! i) 0
     = Num (7502999 / 16777216)"
  using round64_sqrt5 round64_inv_sqrt5 round32_inv_sqrt5
  by (simp add: invstd_of_def ex_variance fl_simps round64_exact del: One_nat_def)





lemma empty_mean: "mean_of ieee 0 H W d src c = NaN"
  by (simp add: mean_of_def sum_seq_def nhw_list_def fl_simps int_prod3_def wrap32_def)

lemma empty_invstd: "invstd_of ieee 0 H W eps d src c = NaN"
  by (simp add: invstd_of_def variance_of_def sqsum_of_def sum_seq_def nhw_list_def fl_simps
      int_prod3_def wrap32_def)







section \<open>The claims about the forward kernel\<close>





text \<open>
  Claim C6. In training mode (the workspace pointer is not null) the forward kernel leaves
  \<open>mean[c]\<close> at \<open>ws[c]\<close> and \<open>invstd[c]\<close> at \<open>ws[C + c]\<close> for every channel
  \<open>c < C\<close> and changes no other cell of the workspace. In inference mode (a null
  pointer) there is no workspace afterwards either, and \<open>dst\<close> is the same buffer as
  in training mode. The statistics are the ones of claim C2, in the arithmetic of the
  code, whatever they are: for \<open>N * H * W = 0\<close> they are \<open>0 / 0\<close> and
  \<open>1 / sqrt (0 / 0 + eps)\<close> of that arithmetic, two NaNs in binary32.
\<close>

theorem forward_workspace:
  "snd (execute_forward A N C H W eps data_d scaleshift_d src scaleshift dst0 (Some b0))
     = Some (\<lambda>i. if i < C then mean_of A N H W data_d src i
                  else if i < 2 * C then invstd_of A N H W eps data_d src (i - C)
                  else b0 i)
   \<and> snd (execute_forward A N C H W eps data_d scaleshift_d src scaleshift dst0 None) = None
   \<and> fst (execute_forward A N C H W eps data_d scaleshift_d src scaleshift dst0 None)
     = fst (execute_forward A N C H W eps data_d scaleshift_d src scaleshift dst0 (Some b0))"
proof -
  have 1: "set [0..<C] = {..<C}" by (simp add: atLeast0LessThan)
  have 2: "\<forall>c\<in>set [0..<C]. c < C" by simp
  show ?thesis
    unfolding execute_forward_def
    using fwd_run_dst_mode [OF 2, of A N H W eps data_d scaleshift_d src scaleshift dst0 None "Some b0"]
    by (simp add: fwd_run_ws [OF 1])
qed

theorem forward_workspace_example:
  "map_option (\<lambda>b. (b 0, b 1, b 2))
     (snd (execute_forward ieee 0 1 1 1 (Num 4) (nchw 1 1 1) (nc 1) (\<lambda>i. Num 3)
            (\<lambda>i. [Num 2, Num 7] ! i) (\<lambda>i. Zero False) (Some (\<lambda>i. Num 8))))
     = Some (NaN, NaN, Num 8)
   \<and> map_option (\<lambda>b. (b 0, b 1, b 2))
     (snd (execute_forward ieee 2 1 1 2 (Zero False) (nchw 1 1 2) (nc 1)
            (\<lambda>i. [Num 1, Num 3, Num 5, Num 7] ! i) (\<lambda>i. [Num 1, Zero False] ! i)
            (\<lambda>i. Zero False) (Some (\<lambda>i. Num 8))))
     = Some (Num 4, Num (7502999 / 16777216), Num 8)
   \<and> execute_forward ieee 2 1 1 2 (Zero False) (nchw 1 1 2) (nc 1)
            (\<lambda>i. [Num 1, Num 3, Num 5, Num 7] ! i) (\<lambda>i. [Num 1, Zero False] ! i)
            (\<lambda>i. Zero False) None
     = (fst (execute_forward ieee 2 1 1 2 (Zero False) (nchw 1 1 2) (nc 1)
            (\<lambda>i. [Num 1, Num 3, Num 5, Num 7] ! i) (\<lambda>i. [Num 1, Zero False] ! i)
            (\<lambda>i. Zero False) (Some (\<lambda>i. Num 8))), None)"
proof -
  note a = forward_workspace [where A = ieee and N = 0 and C = 1 and H = 1 and W = 1
      and eps = "Num 4" and data_d = "nchw 1 1 1" and scaleshift_d = "nc 1"
      and src = "\<lambda>i. Num 3" and scaleshift = "\<lambda>i. [Num 2, Num 7] ! i"
      and ?dst0.0 = "\<lambda>i. Zero False" and ?b0.0 = "\<lambda>i. Num 8"]
  note b = forward_workspace [where A = ieee and N = 2 and C = 1 and H = 1 and W = 2
      and eps = "Zero False" and data_d = "nchw 1 1 2" and scaleshift_d = "nc 1"
      and src = "\<lambda>i. [Num 1, Num 3, Num 5, Num 7] ! i"
      and scaleshift = "\<lambda>i. [Num 1, Zero False] ! i"
      and ?dst0.0 = "\<lambda>i. Zero False" and ?b0.0 = "\<lambda>i. Num 8"]
  have 1: "map_option (\<lambda>b. (b 0, b 1, b 2))
     (snd (execute_forward ieee 0 1 1 1 (Num 4) (nchw 1 1 1) (nc 1) (\<lambda>i. Num 3)
            (\<lambda>i. [Num 2, Num 7] ! i) (\<lambda>i. Zero False) (Some (\<lambda>i. Num 8))))
     = Some (NaN, NaN, Num 8)"
    unfolding a [THEN conjunct1] by (simp add: empty_mean empty_invstd)
  have 2: "map_option (\<lambda>b. (b 0, b 1, b 2))
     (snd (execute_forward ieee 2 1 1 2 (Zero False) (nchw 1 1 2) (nc 1)
            (\<lambda>i. [Num 1, Num 3, Num 5, Num 7] ! i) (\<lambda>i. [Num 1, Zero False] ! i)
            (\<lambda>i. Zero False) (Some (\<lambda>i. Num 8))))
     = Some (Num 4, Num (7502999 / 16777216), Num 8)"
    unfolding b [THEN conjunct1] using ex_mean ex_invstd by simp
  have 3: "execute_forward ieee 2 1 1 2 (Zero False) (nchw 1 1 2) (nc 1)
            (\<lambda>i. [Num 1, Num 3, Num 5, Num 7] ! i) (\<lambda>i. [Num 1, Zero False] ! i)
            (\<lambda>i. Zero False) None
     = (fst (execute_forward ieee 2 1 1 2 (Zero False) (nchw 1 1 2) (nc 1)
            (\<lambda>i. [Num 1, Num 3, Num 5, Num 7] ! i) (\<lambda>i. [Num 1, Zero False] ! i)
            (\<lambda>i. Zero False) (Some (\<lambda>i. Num 8))), None)"
    using b [THEN conjunct2] by (simp add: prod_eq_iff)
  from 1 2 3 show ?thesis by (intro conjI)
qed
















section \<open>The claims about the backward kernel\<close>







text \<open>
  Claim C5. Run with a null \<open>diff_scaleshift\<close> pointer, the backward kernel returns
  the \<open>diff_src\<close> buffer of the run with a buffer supplied and no \<open>diff_scaleshift\<close>:
  nothing was written to it, and this is the only difference. The sums \<open>diff_gamma\<close>
  and \<open>diff_beta\<close> are still computed in full: where the descriptor of \<open>diff_src\<close> is
  injective, \<open>diff_src[n,c,h,w]\<close> of the run with the null pointer is the expression of
  claim C4 with both sums in it.
\<close>

theorem backward_null_diff_scaleshift:
  assumes "inj_desc4 N C H W diff_data_d"
    and "n < N" "c < C" "h < H" "w < W"
  shows "execute_backward A N C H W data_d diff_data_d scaleshift_d diff_scaleshift_d
          workspace_d src diff_dst scaleshift wsp ds0 None
         = (fst (execute_backward A N C H W data_d diff_data_d scaleshift_d diff_scaleshift_d
                  workspace_d src diff_dst scaleshift wsp ds0 (Some b0)), None)
       \<and> fst (execute_backward A N C H W data_d diff_data_d scaleshift_d diff_scaleshift_d
                workspace_d src diff_dst scaleshift wsp ds0 None) (diff_data_d n c h w)
         = f_mul A
             (f_sub A
                (f_sub A (diff_dst (diff_data_d n c h w))
                   (f_div A
                      (sum_seq A (map (\<lambda>(n, h, w). diff_dst (diff_data_d n c h w))
                                   (nhw_list N H W)))
                      (f_of_int A (int_prod3 W H N))))
                (f_div A
                   (f_mul A
                      (f_mul A (f_sub A (src (data_d n c h w)) (wsp (workspace_d 0 + c)))
                         (f_mul A
                            (sum_seq A (map (\<lambda>(n, h, w).
                                 f_mul A (f_sub A (src (data_d n c h w)) (wsp (workspace_d 0 + c)))
                                         (diff_dst (diff_data_d n c h w)))
                               (nhw_list N H W)))
                            (wsp (workspace_d C + c))))
                      (wsp (workspace_d C + c)))
                   (f_of_int A (int_prod3 W H N))))
             (f_mul A (scaleshift (scaleshift_d 0 c)) (wsp (workspace_d C + c)))"
proof -
  have all: "set [0..<C] = {..<C}" by (simp add: atLeast0LessThan)
  have "execute_backward A N C H W data_d diff_data_d scaleshift_d diff_scaleshift_d
          workspace_d src diff_dst scaleshift wsp ds0 None
         = (fst (execute_backward A N C H W data_d diff_data_d scaleshift_d diff_scaleshift_d
                  workspace_d src diff_dst scaleshift wsp ds0 (Some b0)), None)"
    unfolding execute_backward_def
    using bwd_run_mode [of "[0..<C]" A N C H W data_d diff_data_d scaleshift_d diff_scaleshift_d
      workspace_d src diff_dst scaleshift wsp ds0 None "Some b0"]
      bwd_run_null [of "[0..<C]" A N C H W data_d diff_data_d scaleshift_d diff_scaleshift_d
      workspace_d src diff_dst scaleshift wsp ds0]
    by (simp add: prod_eq_iff)
  moreover have "fst (execute_backward A N C H W data_d diff_data_d scaleshift_d diff_scaleshift_d
                workspace_d src diff_dst scaleshift wsp ds0 None) (diff_data_d n c h w)
      = diff_src_of A N H W data_d diff_data_d src diff_dst (scaleshift (scaleshift_d 0 c))
         (wsp (workspace_d 0 + c)) (wsp (workspace_d C + c)) c n h w"
    unfolding execute_backward_def
    using assms(1) all assms(2-5) by (rule bwd_run_diff_src)
  ultimately show ?thesis
    by (simp only: diff_src_of_def diff_gamma_of_def diff_beta_of_def)
qed

theorem backward_null_diff_scaleshift_example:
  "inj_desc4 2 2 1 2 (nchw 2 1 2) \<and>
   execute_backward ieee 2 2 1 2 (nchw 2 1 2) (nchw 2 1 2) (nc 2) (nc 2) (\<lambda>i. i)
          (\<lambda>i. [Num 3, Num 3, Num 1, Num 2, Num 3, Num 3, Num 5, Num 6] ! i)
          (\<lambda>i. [Num 1, Num 2, Num 3, Num 4, Num 5, Num 6, Num 7, Num 8] ! i)
          (\<lambda>i. [Num 2, Num 5, Num 7, Num 9] ! i)
          (\<lambda>i. [Num 3, Num 3, Num (1 / 2), Num 2] ! i) (\<lambda>i. Zero False) None
     = (fst (execute_backward ieee 2 2 1 2 (nchw 2 1 2) (nchw 2 1 2) (nc 2) (nc 2) (\<lambda>i. i)
          (\<lambda>i. [Num 3, Num 3, Num 1, Num 2, Num 3, Num 3, Num 5, Num 6] ! i)
          (\<lambda>i. [Num 1, Num 2, Num 3, Num 4, Num 5, Num 6, Num 7, Num 8] ! i)
          (\<lambda>i. [Num 2, Num 5, Num 7, Num 9] ! i)
          (\<lambda>i. [Num 3, Num 3, Num (1 / 2), Num 2] ! i) (\<lambda>i. Zero False) (Some (\<lambda>i. Zero False))),
        None) \<and>
   fst (execute_backward ieee 2 2 1 2 (nchw 2 1 2) (nchw 2 1 2) (nc 2) (nc 2) (\<lambda>i. i)
          (\<lambda>i. [Num 3, Num 3, Num 1, Num 2, Num 3, Num 3, Num 5, Num 6] ! i)
          (\<lambda>i. [Num 1, Num 2, Num 3, Num 4, Num 5, Num 6, Num 7, Num 8] ! i)
          (\<lambda>i. [Num 2, Num 5, Num 7, Num 9] ! i)
          (\<lambda>i. [Num 3, Num 3, Num (1 / 2), Num 2] ! i) (\<lambda>i. Zero False) None)
     (nchw 2 1 2 1 1 0 1) = Num (- 815)"
proof -
  have inj: "inj_desc4 2 2 1 2 (nchw 2 1 2)" by (rule inj_desc4_nchw)
  have i: "(1::nat) < 2" "(1::nat) < 2" "(0::nat) < 1" "(1::nat) < 2" by simp_all
  note st = backward_null_diff_scaleshift [OF inj i, where A = ieee
        and data_d = "nchw 2 1 2" and scaleshift_d = "nc 2" and diff_scaleshift_d = "nc 2"
        and workspace_d = "\<lambda>i. i"
        and src = "\<lambda>i. [Num 3, Num 3, Num 1, Num 2, Num 3, Num 3, Num 5, Num 6] ! i"
        and diff_dst = "\<lambda>i. [Num 1, Num 2, Num 3, Num 4, Num 5, Num 6, Num 7, Num 8] ! i"
        and scaleshift = "\<lambda>i. [Num 2, Num 5, Num 7, Num 9] ! i"
        and wsp = "\<lambda>i. [Num 3, Num 3, Num (1 / 2), Num 2] ! i" and ?ds0.0 = "\<lambda>i. Zero False"
        and ?b0.0 = "\<lambda>i. Zero False"]
  have "fst (execute_backward ieee 2 2 1 2 (nchw 2 1 2) (nchw 2 1 2) (nc 2) (nc 2) (\<lambda>i. i)
          (\<lambda>i. [Num 3, Num 3, Num 1, Num 2, Num 3, Num 3, Num 5, Num 6] ! i)
          (\<lambda>i. [Num 1, Num 2, Num 3, Num 4, Num 5, Num 6, Num 7, Num 8] ! i)
          (\<lambda>i. [Num 2, Num 5, Num 7, Num 9] ! i)
          (\<lambda>i. [Num 3, Num 3, Num (1 / 2), Num 2] ! i) (\<lambda>i. Zero False) None)
     (nchw 2 1 2 1 1 0 1) = Num (- 815)"
    using st [THEN conjunct2]
    by (simp add: sum_seq_def nhw_list_2_1_2 nchw_def nc_def fl_simps round32_exact
        int_prod3_def wrap32_def del: One_nat_def)
  with inj st [THEN conjunct1] show ?thesis by (intro conjI)
qed

section \<open>The claims about both kernels\<close>

text \<open>
  Claim C10. Both kernels are deterministic functions of their inputs, and the result does
  not depend on the order in which the iterations of the loop over the channels are run:
  when different channels share no offset of the descriptors of the buffers written
  (\<open>dst\<close>, \<open>diff_src\<close>, \<open>diff_scaleshift\<close>), running the iterations in any order
  \<open>cs\<close> that covers the channels \<open>0, \<dots>, C - 1\<close> (in particular in any permutation of
  them) leaves the same \<open>dst\<close> and workspace, and the same \<open>diff_src\<close> and
  \<open>diff_scaleshift\<close>, as the source order. This holds for every arithmetic: the values
  of one channel are computed in the same order whatever the order of the channels.
\<close>

theorem schedule_independence:
  assumes "set cs = {..<C}"
    and "chan_disjoint N C H W data_d"
    and "chan_disjoint N C H W diff_data_d"
    and "chan_disjoint2 C diff_scaleshift_d"
  shows "fwd_run cs A N C H W eps data_d scaleshift_d src scaleshift dst0 ws0
           = execute_forward A N C H W eps data_d scaleshift_d src scaleshift dst0 ws0
       \<and> bwd_run cs A N C H W data_d diff_data_d scaleshift_d diff_scaleshift_d workspace_d
           src diff_dst scaleshift wsp ds0 dss0
           = execute_backward A N C H W data_d diff_data_d scaleshift_d diff_scaleshift_d
               workspace_d src diff_dst scaleshift wsp ds0 dss0"
proof -
  have src_order: "set [0..<C] = {..<C}" by (simp add: atLeast0LessThan)
  have "fwd_run cs A N C H W eps data_d scaleshift_d src scaleshift dst0 ws0
           = fwd_run [0..<C] A N C H W eps data_d scaleshift_d src scaleshift dst0 ws0"
    using assms(2,1) src_order by (rule fwd_run_sched)
  moreover
  have "bwd_run cs A N C H W data_d diff_data_d scaleshift_d diff_scaleshift_d workspace_d
           src diff_dst scaleshift wsp ds0 dss0
      = bwd_run [0..<C] A N C H W data_d diff_data_d scaleshift_d diff_scaleshift_d workspace_d
           src diff_dst scaleshift wsp ds0 dss0"
    using assms(3,4,1) src_order by (rule bwd_run_sched)
  ultimately show ?thesis
    by (simp only: execute_forward_def execute_backward_def)
qed

theorem schedule_independence_example:
  "fwd_run [1, 0] ieee 2 2 1 2 (Num 4) (nchw 2 1 2) (nc 2)
       (\<lambda>i. [Num 3, Num 3, Num 1, Num 2, Num 3, Num 3, Num 5, Num 6] ! i)
       (\<lambda>i. [Num 2, Num 5, Num 7, Num 9] ! i) (\<lambda>i. Zero False) (Some (\<lambda>i. Zero False))
     = execute_forward ieee 2 2 1 2 (Num 4) (nchw 2 1 2) (nc 2)
       (\<lambda>i. [Num 3, Num 3, Num 1, Num 2, Num 3, Num 3, Num 5, Num 6] ! i)
       (\<lambda>i. [Num 2, Num 5, Num 7, Num 9] ! i) (\<lambda>i. Zero False) (Some (\<lambda>i. Zero False))
   \<and> bwd_run [1, 0] ieee 2 2 1 2 (nchw 2 1 2) (nchw 2 1 2) (nc 2) (nc 2) (\<lambda>i. i)
          (\<lambda>i. [Num 3, Num 3, Num 1, Num 2, Num 3, Num 3, Num 5, Num 6] ! i)
          (\<lambda>i. [Num 1, Num 2, Num 3, Num 4, Num 5, Num 6, Num 7, Num 8] ! i)
          (\<lambda>i. [Num 2, Num 5, Num 7, Num 9] ! i)
          (\<lambda>i. [Num 3, Num 3, Num (1 / 2), Num 2] ! i) (\<lambda>i. Zero False) (Some (\<lambda>i. Zero False))
     = execute_backward ieee 2 2 1 2 (nchw 2 1 2) (nchw 2 1 2) (nc 2) (nc 2) (\<lambda>i. i)
          (\<lambda>i. [Num 3, Num 3, Num 1, Num 2, Num 3, Num 3, Num 5, Num 6] ! i)
          (\<lambda>i. [Num 1, Num 2, Num 3, Num 4, Num 5, Num 6, Num 7, Num 8] ! i)
          (\<lambda>i. [Num 2, Num 5, Num 7, Num 9] ! i)
          (\<lambda>i. [Num 3, Num 3, Num (1 / 2), Num 2] ! i) (\<lambda>i. Zero False) (Some (\<lambda>i. Zero False))"
proof -
  have cs: "set [1, 0] = {..<2::nat}" by auto
  have cd: "chan_disjoint 2 2 1 2 (nchw 2 1 2)" by (rule chan_disjoint_nchw)
  have cd2: "chan_disjoint2 2 (nc 2)" by (rule inj_desc2_chan_disjoint2) (rule inj_desc2_nc)
  show ?thesis
    using cs cd cd cd2 by (rule schedule_independence)
qed



lemma ws_beta:
  "diff_beta_of ieee 2 1 2 (nchw 2 1 2)
     (\<lambda>i. [Num 1, Num 2, Num 3, Num 4, Num 5, Num 6, Num 7, Num 8] ! i) 1 = Num 22"
  by (simp add: diff_beta_of_def sum_seq_def nhw_list_2_1_2 nchw_def fl_simps round32_exact
      del: One_nat_def)

lemma ws_gamma_3:
  "diff_gamma_of ieee 2 1 2 (nchw 2 1 2) (nchw 2 1 2)
     (\<lambda>i. [Num 3, Num 3, Num 1, Num 2, Num 3, Num 3, Num 5, Num 6] ! i)
     (\<lambda>i. [Num 1, Num 2, Num 3, Num 4, Num 5, Num 6, Num 7, Num 8] ! i)
     (Num 3) (Num 2) 1 = Num 56"
  by (simp add: diff_gamma_of_def sum_seq_def nhw_list_2_1_2 nchw_def fl_simps round32_exact
      del: One_nat_def)

lemma ws_gamma_4:
  "diff_gamma_of ieee 2 1 2 (nchw 2 1 2) (nchw 2 1 2)
     (\<lambda>i. [Num 3, Num 3, Num 1, Num 2, Num 3, Num 3, Num 5, Num 6] ! i)
     (\<lambda>i. [Num 1, Num 2, Num 3, Num 4, Num 5, Num 6, Num 7, Num 8] ! i)
     (Num 4) (Num 2) 1 = Num 12"
  by (simp add: diff_gamma_of_def sum_seq_def nhw_list_2_1_2 nchw_def fl_simps round32_exact
      del: One_nat_def)

lemma ws_mean:
  "mean_of ieee 2 1 2 (nchw 2 1 2)
     (\<lambda>i. [Num 3, Num 3, Num 1, Num 2, Num 3, Num 3, Num 5, Num 6] ! i) 1 = Num (7 / 2)"
  by (simp add: mean_of_def sum_seq_def nhw_list_2_1_2 nchw_def fl_simps round32_exact
      int_prod3_def wrap32_def del: One_nat_def)

text \<open>
  Claim C9, as stated: every buffer access of either kernel, the workspace reads and
  writes included, is at the offset that the buffer's descriptor gives to logical indices.
  It fails for the workspace. Take the workspace descriptor \<open>off(i) = 2 * i\<close>, which
  never yields the offset 1, and \<open>C = 2\<close>. The forward kernel in training mode writes
  the mean of channel 1 to the cell 1 (\<^verbatim>\<open>ws_mean = &ws[0]\<close>, no descriptor). The
  backward kernel reads the mean of channel 1 at \<^verbatim>\<open>ws[workspace_d.off(0) + 1]\<close>,
  the cell 1 again: two workspaces that agree on every offset of the descriptor and differ
  in the cell 1 give different \<open>diff_src\<close>. The runs are in binary32, where every
  operation of them is exact.
\<close>

theorem workspace_layout_counterexample:
  "(\<forall>i. (\<lambda>i. 2 * i) i \<noteq> (1::nat))
   \<and> map_option (\<lambda>b. b 1)
        (snd (execute_forward ieee 2 2 1 2 (Num 4) (nchw 2 1 2) (nc 2)
               (\<lambda>i. [Num 3, Num 3, Num 1, Num 2, Num 3, Num 3, Num 5, Num 6] ! i)
               (\<lambda>i. [Num 2, Num 5, Num 7, Num 9] ! i) (\<lambda>i. Zero False) (Some (\<lambda>i. Zero False))))
       = Some (Num (7 / 2))
   \<and> (\<forall>i. ((\<lambda>i. [Num 3, Num 3, Zero False, Zero False, Num (1 / 2), Num 2] ! i)(1 := Num 4))
              ((\<lambda>i. 2 * i) i)
            = (\<lambda>i. [Num 3, Num 3, Zero False, Zero False, Num (1 / 2), Num 2 :: fl] ! i)
              ((\<lambda>i. 2 * i) i))
   \<and> fst (execute_backward ieee 2 2 1 2 (nchw 2 1 2) (nchw 2 1 2) (nc 2) (nc 2) (\<lambda>i. 2 * i)
          (\<lambda>i. [Num 3, Num 3, Num 1, Num 2, Num 3, Num 3, Num 5, Num 6] ! i)
          (\<lambda>i. [Num 1, Num 2, Num 3, Num 4, Num 5, Num 6, Num 7, Num 8] ! i)
          (\<lambda>i. [Num 2, Num 5, Num 7, Num 9] ! i)
          (\<lambda>i. [Num 3, Num 3, Zero False, Zero False, Num (1 / 2), Num 2] ! i) (\<lambda>i. Zero False) None)
        (nchw 2 1 2 1 1 0 1) = Num (- 815)
   \<and> fst (execute_backward ieee 2 2 1 2 (nchw 2 1 2) (nchw 2 1 2) (nc 2) (nc 2) (\<lambda>i. 2 * i)
          (\<lambda>i. [Num 3, Num 3, Num 1, Num 2, Num 3, Num 3, Num 5, Num 6] ! i)
          (\<lambda>i. [Num 1, Num 2, Num 3, Num 4, Num 5, Num 6, Num 7, Num 8] ! i)
          (\<lambda>i. [Num 2, Num 5, Num 7, Num 9] ! i)
          ((\<lambda>i. [Num 3, Num 3, Zero False, Zero False, Num (1 / 2), Num 2] ! i)(1 := Num 4))
          (\<lambda>i. Zero False) None)
        (nchw 2 1 2 1 1 0 1) = Num (- 95)"
proof -
  let ?src = "\<lambda>i. [Num 3, Num 3, Num 1, Num 2, Num 3, Num 3, Num 5, Num 6 :: fl] ! i"
  let ?dd = "\<lambda>i. [Num 1, Num 2, Num 3, Num 4, Num 5, Num 6, Num 7, Num 8 :: fl] ! i"
  let ?ss = "\<lambda>i. [Num 2, Num 5, Num 7, Num 9 :: fl] ! i"
  let ?ws = "\<lambda>i. [Num 3, Num 3, Zero False, Zero False, Num (1 / 2), Num 2 :: fl] ! i"
  have all: "set [0..<2] = {..<2::nat}" by (simp add: atLeast0LessThan)
  have inj4: "inj_desc4 2 2 1 2 (nchw 2 1 2)" by (rule inj_desc4_nchw)
  have idx: "(1::nat) < 2" "(1::nat) < 2" "(0::nat) < 1" "(1::nat) < 2" by simp_all
  note ev = diff_src_of_def ws_beta ws_gamma_3 ws_gamma_4 nchw_def nc_def fl_simps round32_exact
    int_prod3_def wrap32_def
  have 1: "\<forall>i. (\<lambda>i. 2 * i) i \<noteq> (1::nat)" by presburger
  have 2: "map_option (\<lambda>b. b 1)
        (snd (execute_forward ieee 2 2 1 2 (Num 4) (nchw 2 1 2) (nc 2) ?src ?ss
               (\<lambda>i. Zero False) (Some (\<lambda>i. Zero False)))) = Some (Num (7 / 2))"
    unfolding execute_forward_def fwd_run_ws [OF all]
    by (simp add: ws_mean del: One_nat_def)
  have 3: "\<forall>i. (?ws(1 := Num 4)) ((\<lambda>i. 2 * i) i) = ?ws ((\<lambda>i. 2 * i) i)"
    using 1 by simp
  have 4: "fst (execute_backward ieee 2 2 1 2 (nchw 2 1 2) (nchw 2 1 2) (nc 2) (nc 2) (\<lambda>i. 2 * i)
          ?src ?dd ?ss ?ws (\<lambda>i. Zero False) None) (nchw 2 1 2 1 1 0 1) = Num (- 815)"
    unfolding execute_backward_def bwd_run_diff_src [OF inj4 all idx]
    by (simp add: ev del: One_nat_def)
  have 5: "fst (execute_backward ieee 2 2 1 2 (nchw 2 1 2) (nchw 2 1 2) (nc 2) (nc 2) (\<lambda>i. 2 * i)
          ?src ?dd ?ss (?ws(1 := Num 4)) (\<lambda>i. Zero False) None) (nchw 2 1 2 1 1 0 1) = Num (- 95)"
    unfolding execute_backward_def bwd_run_diff_src [OF inj4 all idx]
    by (simp add: ev del: One_nat_def)
  from 1 2 3 4 5 show ?thesis by (intro conjI)
qed

text \<open>
  Claim C9, amended. Every access to \<open>src\<close>, \<open>dst\<close>, \<open>scaleshift\<close>, \<open>diff_dst\<close>,
  \<open>diff_src\<close> and \<open>diff_scaleshift\<close> is at an offset that the buffer's descriptor
  gives to logical indices in range: the results depend on the buffers read only through
  the cells at these offsets, and the cells of the buffers written that are at no such
  offset keep their value. The workspace is addressed as a dense array instead: the forward
  kernel takes no workspace descriptor and changes no cell of \<open>ws\<close> from \<open>2 * C\<close> on
  (it writes \<open>ws[c]\<close> and \<open>ws[C + c]\<close>), and the backward kernel reads only the cells
  \<open>ws[workspace_d.off(0) + c]\<close> and \<open>ws[workspace_d.off(C) + c]\<close>.
\<close>

theorem descriptor_accesses:
  assumes "\<forall>i\<in>image4 N C H W data_d. src' i = src i"
    and "\<forall>i\<in>image4 N C H W diff_data_d. diff_dst' i = diff_dst i"
    and "\<forall>i\<in>image2 C scaleshift_d. scaleshift' i = scaleshift i"
    and "\<forall>i\<in>ws_cells C workspace_d. wsp' i = wsp i"
    and "i \<notin> image4 N C H W data_d"
    and "j \<notin> image4 N C H W diff_data_d"
    and "k \<notin> image2 C diff_scaleshift_d"
    and "2 * C \<le> m"
  shows "execute_forward A N C H W eps data_d scaleshift_d src' scaleshift' dst0 ws0
           = execute_forward A N C H W eps data_d scaleshift_d src scaleshift dst0 ws0
       \<and> fst (execute_forward A N C H W eps data_d scaleshift_d src scaleshift dst0 ws0) i = dst0 i
       \<and> map_option (\<lambda>b. b m)
           (snd (execute_forward A N C H W eps data_d scaleshift_d src scaleshift dst0 (Some b0)))
           = Some (b0 m)
       \<and> execute_backward A N C H W data_d diff_data_d scaleshift_d diff_scaleshift_d workspace_d
             src' diff_dst' scaleshift' wsp' ds0 dss0
           = execute_backward A N C H W data_d diff_data_d scaleshift_d diff_scaleshift_d workspace_d
             src diff_dst scaleshift wsp ds0 dss0
       \<and> fst (execute_backward A N C H W data_d diff_data_d scaleshift_d diff_scaleshift_d
                workspace_d src diff_dst scaleshift wsp ds0 dss0) j = ds0 j
       \<and> map_option (\<lambda>b. b k)
           (snd (execute_backward A N C H W data_d diff_data_d scaleshift_d diff_scaleshift_d
                   workspace_d src diff_dst scaleshift wsp ds0 (Some e0))) = Some (e0 k)"
proof -
  have all: "set [0..<C] = {..<C}" by (simp add: atLeast0LessThan)
  have lt: "\<forall>c\<in>set [0..<C]. c < C" by simp
  have 1: "execute_forward A N C H W eps data_d scaleshift_d src' scaleshift' dst0 ws0
           = execute_forward A N C H W eps data_d scaleshift_d src scaleshift dst0 ws0"
    unfolding execute_forward_def using assms(1,3) lt by (rule fwd_run_reads)
  have 2: "fst (execute_forward A N C H W eps data_d scaleshift_d src scaleshift dst0 ws0) i = dst0 i"
    unfolding execute_forward_def using assms(5) lt by (rule fwd_run_frame)
  have 3: "map_option (\<lambda>b. b m)
           (snd (execute_forward A N C H W eps data_d scaleshift_d src scaleshift dst0 (Some b0)))
           = Some (b0 m)"
    unfolding execute_forward_def fwd_run_ws [OF all] using assms(8) by simp
  have 4: "execute_backward A N C H W data_d diff_data_d scaleshift_d diff_scaleshift_d workspace_d
             src' diff_dst' scaleshift' wsp' ds0 dss0
           = execute_backward A N C H W data_d diff_data_d scaleshift_d diff_scaleshift_d workspace_d
             src diff_dst scaleshift wsp ds0 dss0"
    unfolding execute_backward_def using assms(1,2,3,4) lt by (rule bwd_run_reads)
  have 5: "fst (execute_backward A N C H W data_d diff_data_d scaleshift_d diff_scaleshift_d
                workspace_d src diff_dst scaleshift wsp ds0 dss0) j = ds0 j"
    unfolding execute_backward_def using assms(6) lt by (rule bwd_run_frame)
  have 6: "map_option (\<lambda>b. b k)
           (snd (execute_backward A N C H W data_d diff_data_d scaleshift_d diff_scaleshift_d
                   workspace_d src diff_dst scaleshift wsp ds0 (Some e0))) = Some (e0 k)"
    unfolding execute_backward_def using assms(7) lt by (rule bwd_run_rows_frame)
  from 1 2 3 4 5 6 show ?thesis by (intro conjI)
qed

theorem descriptor_accesses_example:
  "execute_forward ieee 2 2 1 2 (Num 4) (nchw 2 1 2) (nc 2)
       ((\<lambda>i. [Num 3, Num 3, Num 1, Num 2, Num 3, Num 3, Num 5, Num 6] ! i)(8 := Num 9))
       ((\<lambda>i. [Num 2, Num 5, Num 7, Num 9] ! i)(4 := Num 1)) (\<lambda>i. Zero False) None
     = execute_forward ieee 2 2 1 2 (Num 4) (nchw 2 1 2) (nc 2)
       (\<lambda>i. [Num 3, Num 3, Num 1, Num 2, Num 3, Num 3, Num 5, Num 6] ! i)
       (\<lambda>i. [Num 2, Num 5, Num 7, Num 9] ! i) (\<lambda>i. Zero False) None
   \<and> fst (execute_forward ieee 2 2 1 2 (Num 4) (nchw 2 1 2) (nc 2)
       (\<lambda>i. [Num 3, Num 3, Num 1, Num 2, Num 3, Num 3, Num 5, Num 6] ! i)
       (\<lambda>i. [Num 2, Num 5, Num 7, Num 9] ! i) (\<lambda>i. Zero False) None) 8 = Zero False
   \<and> map_option (\<lambda>b. b 4)
       (snd (execute_forward ieee 2 2 1 2 (Num 4) (nchw 2 1 2) (nc 2)
         (\<lambda>i. [Num 3, Num 3, Num 1, Num 2, Num 3, Num 3, Num 5, Num 6] ! i)
         (\<lambda>i. [Num 2, Num 5, Num 7, Num 9] ! i) (\<lambda>i. Zero False) (Some (\<lambda>i. Num 8))))
     = Some (Num 8)
   \<and> execute_backward ieee 2 2 1 2 (nchw 2 1 2) (nchw 2 1 2) (nc 2) (nc 2) (\<lambda>i. 2 * i)
          ((\<lambda>i. [Num 3, Num 3, Num 1, Num 2, Num 3, Num 3, Num 5, Num 6] ! i)(8 := Num 9))
          ((\<lambda>i. [Num 1, Num 2, Num 3, Num 4, Num 5, Num 6, Num 7, Num 8] ! i)(9 := Num 1))
          ((\<lambda>i. [Num 2, Num 5, Num 7, Num 9] ! i)(4 := Num 1))
          ((\<lambda>i. [Num 3, Num 3, Zero False, Zero False, Num (1 / 2), Num 2] ! i)(2 := Num 7))
          (\<lambda>i. Zero False) None
     = execute_backward ieee 2 2 1 2 (nchw 2 1 2) (nchw 2 1 2) (nc 2) (nc 2) (\<lambda>i. 2 * i)
          (\<lambda>i. [Num 3, Num 3, Num 1, Num 2, Num 3, Num 3, Num 5, Num 6] ! i)
          (\<lambda>i. [Num 1, Num 2, Num 3, Num 4, Num 5, Num 6, Num 7, Num 8] ! i)
          (\<lambda>i. [Num 2, Num 5, Num 7, Num 9] ! i)
          (\<lambda>i. [Num 3, Num 3, Zero False, Zero False, Num (1 / 2), Num 2] ! i) (\<lambda>i. Zero False) None
   \<and> fst (execute_backward ieee 2 2 1 2 (nchw 2 1 2) (nchw 2 1 2) (nc 2) (nc 2) (\<lambda>i. 2 * i)
          (\<lambda>i. [Num 3, Num 3, Num 1, Num 2, Num 3, Num 3, Num 5, Num 6] ! i)
          (\<lambda>i. [Num 1, Num 2, Num 3, Num 4, Num 5, Num 6, Num 7, Num 8] ! i)
          (\<lambda>i. [Num 2, Num 5, Num 7, Num 9] ! i)
          (\<lambda>i. [Num 3, Num 3, Zero False, Zero False, Num (1 / 2), Num 2] ! i) (\<lambda>i. Zero False) None) 8
     = Zero False
   \<and> map_option (\<lambda>b. b 4)
        (snd (execute_backward ieee 2 2 1 2 (nchw 2 1 2) (nchw 2 1 2) (nc 2) (nc 2) (\<lambda>i. 2 * i)
          (\<lambda>i. [Num 3, Num 3, Num 1, Num 2, Num 3, Num 3, Num 5, Num 6] ! i)
          (\<lambda>i. [Num 1, Num 2, Num 3, Num 4, Num 5, Num 6, Num 7, Num 8] ! i)
          (\<lambda>i. [Num 2, Num 5, Num 7, Num 9] ! i)
          (\<lambda>i. [Num 3, Num 3, Zero False, Zero False, Num (1 / 2), Num 2] ! i) (\<lambda>i. Zero False)
          (Some (\<lambda>i. Num 1))))
     = Some (Num 1)"
proof -
  let ?src = "\<lambda>i. [Num 3, Num 3, Num 1, Num 2, Num 3, Num 3, Num 5, Num 6 :: fl] ! i"
  let ?dd = "\<lambda>i. [Num 1, Num 2, Num 3, Num 4, Num 5, Num 6, Num 7, Num 8 :: fl] ! i"
  let ?ss = "\<lambda>i. [Num 2, Num 5, Num 7, Num 9 :: fl] ! i"
  let ?ws = "\<lambda>i. [Num 3, Num 3, Zero False, Zero False, Num (1 / 2), Num 2 :: fl] ! i"
  have o4: "i \<notin> image4 2 2 1 2 (nchw 2 1 2)" if "8 \<le> i" for i
    using that by (auto simp: image4_def foot_iff nchw_def)
  have o2: "4 \<notin> image2 2 (nc 2)"
    by (auto simp: image2_iff nc_def)
  have ow: "2 \<notin> ws_cells 2 (\<lambda>i. 2 * i)"
    by (auto simp: ws_cells_iff)
  have 1: "\<forall>i\<in>image4 2 2 1 2 (nchw 2 1 2). (?src(8 := Num 9)) i = ?src i"
    using o4 [of 8] by auto
  have 2: "\<forall>i\<in>image4 2 2 1 2 (nchw 2 1 2). (?dd(9 := Num 1)) i = ?dd i"
    using o4 [of 9] by auto
  have 3: "\<forall>i\<in>image2 2 (nc 2). (?ss(4 := Num 1)) i = ?ss i"
    using o2 by auto
  have 4: "\<forall>i\<in>ws_cells 2 (\<lambda>i. 2 * i). (?ws(2 := Num 7)) i = ?ws i"
    using ow by auto
  have 5: "8 \<notin> image4 2 2 1 2 (nchw 2 1 2)" by (rule o4) simp
  have 6: "2 * 2 \<le> (4::nat)" by simp
  show ?thesis
    by (rule descriptor_accesses [OF 1 2 3 4 5 5 o2 6])
qed

end
